theory Spec2Isabelle
  imports Main "HOL-Library.Word"
begin

section \<open>Byte strings and decimal text\<close>

text \<open>
  A Go \<open>[]byte\<close> is a \<open>string\<close> (a list of characters); \<open>int64\<close> is a 64-bit
  word, read as two's complement by \<open>sint\<close>, so that \<open>c.seq++\<close> wraps as it does in Go.
\<close>

type_synonym bytes = string
type_synonym int64 = "64 word"

definition digit :: "nat \<Rightarrow> char" where
  "digit d = ''0123456789'' ! d"

fun digits :: "nat \<Rightarrow> string" where
  "digits n = (if n < 10 then [digit n] else digits (n div 10) @ [digit (n mod 10)])"

text \<open>\<open>strconv.AppendInt(nil, i, 10)\<close>: the decimal text of a signed 64-bit integer.\<close>

definition AppendInt :: "int64 \<Rightarrow> bytes" where
  "AppendInt i = (if sint i < 0 then CHR ''-'' # digits (nat (- sint i)) else digits (nat (sint i)))"

section \<open>Messages\<close>

text \<open>
  Modelled from the spec: the declarations of \<open>Header\<close> and \<open>Message\<close> are not among the
  sources; the fields are the ones the sources read and write. \<open>Header\<close> is the ordered
  vector of (name, data) pairs with its count \<open>itemc\<close>. \<open>client.go\<close> stores byte strings
  in \<open>ID\<close> and \<open>Subs\<close> while \<open>writeTo\<close> renders them with \<open>strconv.AppendInt\<close>, so
  the record is generic in the type of these two fields.
\<close>

record Header =
  items :: "(bytes \<times> bytes) list"
  itemc :: int

record 'i Message =
  Proto :: bytes
  Method :: bytes
  User :: bytes
  Pass :: bytes
  ID :: 'i
  Subs :: 'i
  Dest :: bytes
  Ack :: bytes
  Prefetch :: bytes
  Persist :: bytes
  Retain :: bytes
  Expires :: int64
  Selector :: bytes
  Receipt :: bytes
  Header :: Header
  Body :: bytes

text \<open>
  Modelled from the spec: \<open>NewMessage\<close> (not among the sources) returns a cleared message,
  every byte slice of length zero and every integer zero; \<open>z\<close> is the zero of the type
  of \<open>ID\<close> and \<open>Subs\<close>.
\<close>

definition NewMessage :: "'i \<Rightarrow> 'i Message" where
  "NewMessage z = \<lparr> Proto = [], Method = [], User = [], Pass = [], ID = z, Subs = z,
     Dest = [], Ack = [], Prefetch = [], Persist = [], Retain = [], Expires = 0,
     Selector = [], Receipt = [], Header = \<lparr> items = [], itemc = 0 \<rparr>, Body = [] \<rparr>"

text \<open>
  Modelled from the spec: the method and header-name constants are declared outside the
  sources; their values are the command names of the wire format and the header names of
  the serializer's table (RECEIPT carries \<open>receipt-id\<close>).
\<close>

definition MethodStomp :: bytes where "MethodStomp = ''STOMP''"
definition MethodConnected :: bytes where "MethodConnected = ''CONNECTED''"
definition MethodSend :: bytes where "MethodSend = ''SEND''"
definition MethodSubscribe :: bytes where "MethodSubscribe = ''SUBSCRIBE''"
definition MethodUnsubscribe :: bytes where "MethodUnsubscribe = ''UNSUBSCRIBE''"
definition MethodAck :: bytes where "MethodAck = ''ACK''"
definition MethodNack :: bytes where "MethodNack = ''NACK''"
definition MethodDisconnect :: bytes where "MethodDisconnect = ''DISCONNECT''"
definition MethodMessage :: bytes where "MethodMessage = ''MESSAGE''"
definition MethodRecipet :: bytes where "MethodRecipet = ''RECEIPT''"

definition STOMP :: bytes where "STOMP = ''1.2''"
definition PersistTrue :: bytes where "PersistTrue = ''true''"

definition HeaderAccept :: bytes where "HeaderAccept = ''accept-version''"
definition HeaderAck :: bytes where "HeaderAck = ''ack''"
definition HeaderExpires :: bytes where "HeaderExpires = ''expires''"
definition HeaderDest :: bytes where "HeaderDest = ''destination''"
definition HeaderLogin :: bytes where "HeaderLogin = ''login''"
definition HeaderPass :: bytes where "HeaderPass = ''passcode''"
definition HeaderID :: bytes where "HeaderID = ''id''"
definition HeaderMessageID :: bytes where "HeaderMessageID = ''message-id''"
definition HeaderPersist :: bytes where "HeaderPersist = ''persistent''"
definition HeaderPrefetch :: bytes where "HeaderPrefetch = ''prefetch-count''"
definition HeaderReceiptID :: bytes where "HeaderReceiptID = ''receipt-id''"
definition HeaderRetain :: bytes where "HeaderRetain = ''retain''"
definition HeaderSelector :: bytes where "HeaderSelector = ''selector''"
definition HeaderSubscription :: bytes where "HeaderSubscription = ''subscription''"
definition HeaderVersion :: bytes where "HeaderVersion = ''version''"

lemmas Method_defs = MethodStomp_def MethodConnected_def MethodSend_def MethodSubscribe_def
  MethodUnsubscribe_def MethodAck_def MethodNack_def MethodDisconnect_def MethodMessage_def
  MethodRecipet_def

lemmas Header_defs = HeaderAccept_def HeaderAck_def HeaderExpires_def HeaderDest_def
  HeaderLogin_def HeaderPass_def HeaderID_def HeaderMessageID_def HeaderPersist_def
  HeaderPrefetch_def HeaderReceiptID_def HeaderRetain_def HeaderSelector_def
  HeaderSubscription_def HeaderVersion_def

section \<open>The serializer (writeTo)\<close>

definition newline :: bytes where "newline = [CHR 0x0D, CHR 0x0A]"
definition separator :: bytes where "separator = '':''"

text \<open>One header line: name, separator, value, newline (four \<open>w.Write\<close> calls).\<close>

definition line :: "bytes \<Rightarrow> bytes \<Rightarrow> bytes" where
  "line name val = name @ separator @ val @ newline"

text \<open>A header line written only when the value is non-empty (\<open>len(v) != 0\<close>).\<close>

definition opt_line :: "bytes \<Rightarrow> bytes \<Rightarrow> bytes" where
  "opt_line name val = (if length val \<noteq> 0 then line name val else [])"

text \<open>The \<open>switch\<close> of \<open>writeTo\<close>: the first case whose method matches, in source order.\<close>

definition method_headers :: "int64 Message \<Rightarrow> bytes" where
  "method_headers m =
    (if Method m = MethodStomp then
       line HeaderAccept (Proto m) @ opt_line HeaderLogin (User m) @ opt_line HeaderPass (Pass m)
     else if Method m = MethodConnected then
       line HeaderVersion (Proto m)
     else if Method m = MethodSend then
       line HeaderDest (Dest m)
       @ (if Expires m \<noteq> 0 then line HeaderExpires (AppendInt (Expires m)) else [])
       @ opt_line HeaderRetain (Retain m)
       @ opt_line HeaderPersist (Persist m)
     else if Method m = MethodSubscribe then
       line HeaderID (AppendInt (ID m))
       @ line HeaderDest (Dest m)
       @ opt_line HeaderSelector (Selector m)
       @ opt_line HeaderPrefetch (Prefetch m)
       @ opt_line HeaderAck (Ack m)
     else if Method m = MethodUnsubscribe then line HeaderID (AppendInt (ID m))
     else if Method m = MethodAck then line HeaderID (AppendInt (ID m))
     else if Method m = MethodNack then line HeaderID (AppendInt (ID m))
     else if Method m = MethodMessage then
       line HeaderMessageID (AppendInt (ID m))
       @ line HeaderDest (Dest m)
       @ line HeaderSubscription (AppendInt (Subs m))
       @ opt_line HeaderAck (Ack m)
     else if Method m = MethodRecipet then line HeaderReceiptID (Receipt m)
     else [])"

definition includeReceiptHeader :: "'i Message \<Rightarrow> bool" where
  "includeReceiptHeader m = (length (Receipt m) \<noteq> 0 \<and> \<not> (Method m = MethodRecipet))"

text \<open>
  The loop over \<open>m.Header.items\<close>: \<open>i\<close> is the index of \<open>range\<close>, and the loop stops
  at the first index equal to \<open>itemc\<close>.
\<close>

fun write_items :: "int \<Rightarrow> int \<Rightarrow> (bytes \<times> bytes) list \<Rightarrow> bytes" where
  "write_items c i [] = []"
| "write_items c i (item # rest) =
     (if c = i then [] else line (fst item) (snd item) @ write_items c (i + 1) rest)"

text \<open>The bytes \<open>writeTo\<close> writes to its writer, in order.\<close>

definition writeTo :: "int64 Message \<Rightarrow> bytes" where
  "writeTo m =
     Method m @ newline
     @ method_headers m
     @ (if includeReceiptHeader m then line HeaderReceiptID (Receipt m) else [])
     @ write_items (itemc (Header m)) 0 (items (Header m))
     @ newline
     @ Body m"

section \<open>Results of calls, and channels\<close>

text \<open>
  The Go \<open>error\<close> values that occur: \<open>io.EOF\<close>, an error built by \<open>fmt.Errorf\<close>,
  and a runtime error. A panic carries any value: one that implements \<open>error\<close>, or
  another one (here a string).
\<close>

datatype error = EOF | Errorf string | RuntimeError string

datatype panic_value = ErrorValue error | OtherValue string

text \<open>A call returns a value, panics with a value, or blocks for ever.\<close>

datatype 'a outcome = Return 'a | Panic panic_value | Block

text \<open>
  A channel: whether it has been closed, and the values sent on it that have not been
  received yet, oldest first.
\<close>

record 'a chan =
  closed :: bool
  queue :: "'a list"

definition make_chan :: "'a chan" where
  "make_chan = \<lparr> closed = False, queue = [] \<rparr>"

text \<open>\<open>close(ch)\<close>: closing a closed channel panics.\<close>

definition chan_close :: "'a chan \<Rightarrow> 'a chan outcome" where
  "chan_close ch =
     (if closed ch then Panic (ErrorValue (RuntimeError ''close of closed channel''))
      else Return (ch\<lparr>closed := True\<rparr>))"

text \<open>
  \<open>ch <- v\<close> on an unbuffered channel whose receiving task is running: the value is
  handed over, in order. Sending on a closed channel panics.
\<close>

definition chan_send :: "'a \<Rightarrow> 'a chan \<Rightarrow> 'a chan outcome" where
  "chan_send v ch =
     (if closed ch then Panic (ErrorValue (RuntimeError ''send on closed channel''))
      else Return (ch\<lparr>queue := queue ch @ [v]\<rparr>))"

text \<open>
  \<open>ch <- v\<close> on a channel with a buffer of \<open>n\<close> values and no task receiving at
  the moment: the send blocks when the buffer is full.
\<close>

definition chan_send_buffered :: "nat \<Rightarrow> 'a \<Rightarrow> 'a chan \<Rightarrow> 'a chan outcome" where
  "chan_send_buffered n v ch =
     (if closed ch then Panic (ErrorValue (RuntimeError ''send on closed channel''))
      else if length (queue ch) < n then Return (ch\<lparr>queue := queue ch @ [v]\<rparr>)
      else Block)"

section \<open>The connection peer (conn.go)\<close>

definition bufferSize :: nat where "bufferSize = push_bit 10 32"
definition bufferLimit :: nat where "bufferLimit = push_bit 15 32"

text \<open>
  The channels of \<open>connPeer\<close>. Nothing is ever sent on \<open>done\<close> (here \<open>pdone\<close>): it
  is only closed, and \<open><-c.done\<close> is ready exactly when it is closed.
\<close>

record 'm connPeer =
  pdone :: "bool chan"
  incoming :: "'m chan"
  outgoing :: "'m chan"

definition Conn :: "'m connPeer" where
  "Conn = \<lparr> pdone = make_chan, incoming = make_chan, outgoing = make_chan \<rparr>"

definition peer_Send :: "'m \<Rightarrow> 'm connPeer \<Rightarrow> error option outcome \<times> 'm connPeer" where
  "peer_Send message c =
     (if closed (pdone c) then (Return (Some EOF), c)
      else (case chan_send message (outgoing c) of
              Return ch \<Rightarrow> (Return None, c\<lparr>outgoing := ch\<rparr>)
            | Panic v \<Rightarrow> (Panic v, c)
            | Block \<Rightarrow> (Block, c)))"

text \<open>
  \<open>close\<close>: when \<open>done\<close> is closed already, \<open>io.EOF\<close>; otherwise the three channels
  are closed in order. A panic of one \<open>close(...)\<close> leaves the later ones undone.
\<close>

definition peer_close :: "'m connPeer \<Rightarrow> error option outcome \<times> 'm connPeer" where
  "peer_close c =
     (if closed (pdone c) then (Return (Some EOF), c)
      else (case chan_close (pdone c) of
              Panic v \<Rightarrow> (Panic v, c)
            | Block \<Rightarrow> (Block, c)
            | Return d \<Rightarrow>
               (let c1 = c\<lparr>pdone := d\<rparr> in
                case chan_close (incoming c1) of
                  Panic v \<Rightarrow> (Panic v, c1)
                | Block \<Rightarrow> (Block, c1)
                | Return i \<Rightarrow>
                   (let c2 = c1\<lparr>incoming := i\<rparr> in
                    case chan_close (outgoing c2) of
                      Panic v \<Rightarrow> (Panic v, c2)
                    | Block \<Rightarrow> (Block, c2)
                    | Return out \<Rightarrow> (Return None, c2\<lparr>outgoing := out\<rparr>)))))"

definition peer_Close :: "'m connPeer \<Rightarrow> error option outcome \<times> 'm connPeer" where
  "peer_Close c = peer_close c"

text \<open>The state after \<open>n\<close> further calls of \<open>Close\<close>.\<close>

fun Close_times :: "nat \<Rightarrow> 'm connPeer \<Rightarrow> 'm connPeer" where
  "Close_times 0 c = c"
| "Close_times (Suc n) c = Close_times n (snd (peer_Close c))"

subsection \<open>The reader task\<close>

definition NUL :: char where "NUL = CHR 0x00"

text \<open>
  \<open>bufio.Reader.ReadBytes(delim)\<close> on the bytes the connection still delivers: the
  bytes up to and including the first \<open>delim\<close>, and the bytes left; when the stream
  ends before a \<open>delim\<close>, what was read and the error \<open>io.EOF\<close>.
\<close>

fun ReadBytes :: "char \<Rightarrow> bytes \<Rightarrow> (bytes \<times> error option) \<times> bytes" where
  "ReadBytes delim [] = (([], Some EOF), [])"
| "ReadBytes delim (b # bs) =
     (if b = delim then (([b], None), bs)
      else (case ReadBytes delim bs of ((buf, err), rest) \<Rightarrow> ((b # buf, err), rest)))"

lemma ReadBytes_shorter:
  "ReadBytes delim stream = ((buf, None), rest) \<Longrightarrow> length rest < length stream"
proof (induction stream arbitrary: buf rest)
  case Nil
  then show ?case by simp
next
  case (Cons b bs)
  show ?case
  proof (cases "b = delim")
    case True
    with Cons.prems show ?thesis by simp
  next
    case False
    obtain buf' err' rest' where r: "ReadBytes delim bs = ((buf', err'), rest')"
      by (metis prod.exhaust)
    with False Cons.prems have "err' = None" "rest' = rest" by simp_all
    with r Cons.IH have "length rest < length bs" by simp
    then show ?thesis by simp
  qed
qed

text \<open>
  The loop of \<open>readInto\<close>. \<open>parse b\<close> is the message \<open>msg\<close> after
  \<open>msg := NewMessage(); msg.Parse(b)\<close> (\<open>Parse\<close> is not among the sources; the loop
  ignores its result). A buffer of one byte is a heart-beat. The \<open>break\<close> inside the
  \<open>select\<close> leaves the \<open>select\<close> only, so the loop goes on when \<open>done\<close> is closed.
\<close>

function readLoop :: "(bytes \<Rightarrow> 'm) \<Rightarrow> bytes \<Rightarrow> 'm connPeer \<Rightarrow> unit outcome \<times> 'm connPeer" where
  "readLoop parse stream c =
     (case ReadBytes NUL stream of
        ((buf, Some err), rest) \<Rightarrow> (Return (), c)
      | ((buf, None), rest) \<Rightarrow>
          (if length buf = 1 then readLoop parse rest c
           else if closed (pdone c) then readLoop parse rest c
           else (case chan_send (parse (butlast buf)) (incoming c) of
                   Return ch \<Rightarrow> readLoop parse rest (c\<lparr>incoming := ch\<rparr>)
                 | Panic v \<Rightarrow> (Panic v, c)
                 | Block \<Rightarrow> (Block, c))))"
  by pat_completeness auto
termination
  by (relation "measure (\<lambda>(parse, stream, c). length stream)")
     (auto dest: ReadBytes_shorter [OF sym])

declare readLoop.simps [simp del]

text \<open>\<open>readInto\<close>: the loop, then the deferred \<open>c.close()\<close>, which also runs on a panic.\<close>

definition readInto :: "(bytes \<Rightarrow> 'm) \<Rightarrow> bytes \<Rightarrow> 'm connPeer \<Rightarrow> unit outcome \<times> 'm connPeer" where
  "readInto parse stream c =
     (case readLoop parse stream c of
        (Block, c1) \<Rightarrow> (Block, c1)
      | (r, c1) \<Rightarrow>
          (case peer_close c1 of
             (Panic v, c2) \<Rightarrow> (Panic v, c2)
           | (Block, c2) \<Rightarrow> (Block, c2)
           | (Return e, c2) \<Rightarrow> (r, c2)))"

text \<open>
  A received message as the reader builds it: the frame bytes given to \<open>Parse\<close>.
\<close>

datatype inbound = Parsed bytes

section \<open>Message options (options.go)\<close>

type_synonym MessageOption = "bytes Message \<Rightarrow> bytes Message"

text \<open>
  Modelled from the spec: \<open>Header.Add\<close> is not among the sources; it appends the pair
  after the items present and counts it.
\<close>

definition Header_Add :: "bytes \<Rightarrow> bytes \<Rightarrow> Header \<Rightarrow> Header" where
  "Header_Add name data h = h\<lparr> items := items h @ [(name, data)], itemc := itemc h + 1 \<rparr>"

text \<open>
  Modelled from the spec: \<open>Message.Apply\<close> is not among the sources; it runs the options
  on the message, in the order given.
\<close>

definition Apply :: "MessageOption list \<Rightarrow> bytes Message \<Rightarrow> bytes Message" where
  "Apply opts m = fold (\<lambda>opt. opt) opts m"

definition WithCredentials :: "bytes \<Rightarrow> bytes \<Rightarrow> MessageOption" where
  "WithCredentials username password m = m\<lparr> User := username, Pass := password \<rparr>"

definition WithHeader :: "bytes \<Rightarrow> bytes \<Rightarrow> MessageOption" where
  "WithHeader key val m = m\<lparr> Header := Header_Add key val (Header m) \<rparr>"

definition WithExpires :: "int64 \<Rightarrow> MessageOption" where
  "WithExpires exp m = m\<lparr> Expires := exp \<rparr>"

definition WithPrefetch :: "int64 \<Rightarrow> MessageOption" where
  "WithPrefetch prefetch m = m\<lparr> Prefetch := AppendInt prefetch \<rparr>"

text \<open>\<open>WithReceipt\<close>: \<open>r\<close> is the value that \<open>rand.Int63()\<close> returns.\<close>

definition WithReceipt :: "int64 \<Rightarrow> MessageOption" where
  "WithReceipt r m = m\<lparr> Receipt := AppendInt r \<rparr>"

definition WithPersistence :: MessageOption where
  "WithPersistence m = m\<lparr> Persist := PersistTrue \<rparr>"

definition WithRetain :: "bytes \<Rightarrow> MessageOption" where
  "WithRetain retain m = m\<lparr> Retain := retain \<rparr>"

definition WithSelector :: "bytes \<Rightarrow> MessageOption" where
  "WithSelector selector m = m\<lparr> Selector := selector \<rparr>"

definition WithAck :: "bytes \<Rightarrow> MessageOption" where
  "WithAck ack m = m\<lparr> Ack := ack \<rparr>"

section \<open>The client (client.go)\<close>

text \<open>A handler's \<open>Handle(m)\<close> returns, panics with a value, or blocks.\<close>

type_synonym Handler = "bytes Message \<Rightarrow> unit outcome"

text \<open>
  What a client does to its shared state and to the outside, in the order it does it:
  the mutex, the counter, the two maps, the peer, the waiter and \<open>done\<close> channels, the
  handlers, the message pool and the logger.
\<close>

datatype event =
    Lock | Unlock
  | SeqIncr
  | SubsPut string Handler | SubsGet string | SubsDel string
  | WaitPut string | WaitGet string | WaitDel string
  | PeerSend "bytes Message" | PeerReceive | PeerClose
  | WaiterSend string | WaiterReceive string
  | DoneSend error
  | Handle "bytes Message"
  | Release "bytes Message"
  | GoListen
  | Noticef string bytes
  | Warningf string panic_value

text \<open>
  The fields of \<open>Client\<close> that the code uses: the peer (the one \<open>Conn\<close> builds), the
  two maps, \<open>done\<close> (here \<open>cdone\<close>, of capacity 1) and the counter. \<open>trace\<close> is not a
  field of the Go struct: it records the events of the calls, oldest first, and the
  mutex \<open>mu\<close> appears in it as \<open>Lock\<close> and \<open>Unlock\<close>.
\<close>

record Client =
  peer :: "bytes Message connPeer"
  subs :: "string \<rightharpoonup> Handler"
  wait :: "string \<rightharpoonup> unit chan"
  cdone :: "error chan"
  seq :: int64
  trace :: "event list"

definition New :: "bytes Message connPeer \<Rightarrow> Client" where
  "New p = \<lparr> peer = p, subs = Map.empty, wait = Map.empty, cdone = make_chan, seq = 0,
     trace = [] \<rparr>"

definition emit :: "event \<Rightarrow> Client \<Rightarrow> Client" where
  "emit e c = c\<lparr> trace := trace c @ [e] \<rparr>"

text \<open>\<open>c.peer.Send(m)\<close>, \<open>c.peer.Close()\<close> and \<open><-c.peer.Receive()\<close>.\<close>

definition peerSend :: "bytes Message \<Rightarrow> Client \<Rightarrow> error option outcome \<times> Client" where
  "peerSend m c =
     (case peer_Send m (peer c) of (r, p) \<Rightarrow> (r, (emit (PeerSend m) c)\<lparr> peer := p \<rparr>))"

definition peerClose :: "Client \<Rightarrow> error option outcome \<times> Client" where
  "peerClose c =
     (case peer_Close (peer c) of (r, p) \<Rightarrow> (r, (emit PeerClose c)\<lparr> peer := p \<rparr>))"

definition receive :: "Client \<Rightarrow> bytes Message option outcome \<times> Client" where
  "receive c =
     (case queue (incoming (peer c)) of
        m # ms \<Rightarrow>
          (Return (Some m),
           (emit PeerReceive c)\<lparr> peer := (peer c)\<lparr> incoming := (incoming (peer c))\<lparr> queue := ms \<rparr> \<rparr> \<rparr>)
      | [] \<Rightarrow>
          (if closed (incoming (peer c)) then (Return None, emit PeerReceive c)
           else (Block, c)))"

definition incr :: "Client \<Rightarrow> bytes \<times> Client" where
  "incr c =
     (let c1 = emit Lock c;
          i = seq c1;
          c2 = emit SeqIncr (c1\<lparr> seq := seq c1 + 1 \<rparr>);
          c3 = emit Unlock c2
      in (AppendInt i, c3))"

text \<open>
  Modelled from the spec: \<open>Release\<close> is not among the sources; it truncates every byte
  slice of the message to length zero, resets its integers and returns it to the pool.
  \<open>Reset m\<close> is what the message holds after that.
\<close>

definition Reset :: "bytes Message \<Rightarrow> bytes Message" where
  "Reset m = m\<lparr> Proto := [], Method := [], User := [], Pass := [], ID := [], Subs := [],
     Dest := [], Ack := [], Prefetch := [], Persist := [], Retain := [], Expires := 0,
     Selector := [], Receipt := [], Header := \<lparr> items = [], itemc = 0 \<rparr>, Body := [] \<rparr>"

text \<open>
  What happens while \<open>sendMessage\<close> waits in its \<open>select\<close>. Either the listen task
  never pushes onto \<open>receiptc\<close>, or a RECEIPT arrives and it does. A RECEIPT answers a
  frame that was written: \<open>Peer.Send\<close> handed the pointer \<open>m\<close> to the writer task,
  which runs \<open>writeTo(c.writer, msg)\<close> and then \<open>msg.Release()\<close> before the frame is
  flushed. So when the receipt arrives the message has been released; the argument of
  \<open>Arrives\<close> says whether the pool has handed it out again since, and with what
  content.
\<close>

datatype receipt_wait = Never | Arrives "bytes Message option"

text \<open>What \<open>*m\<close> holds when the \<open>select\<close> of \<open>sendMessage\<close> returns.\<close>

definition at_exit :: "bytes Message \<Rightarrow> bytes Message option \<Rightarrow> bytes Message" where
  "at_exit m reused = (case reused of None \<Rightarrow> Reset m | Some m' \<Rightarrow> m')"

text \<open>The deferred function of \<open>sendMessage\<close>: \<open>delete(c.wait, k)\<close>.\<close>

definition wait_delete :: "string \<Rightarrow> Client \<Rightarrow> Client" where
  "wait_delete k c = emit (WaitDel k) (c\<lparr> wait := (wait c)(k := None) \<rparr>)"

text \<open>
  \<open>sendMessage\<close>. The map is written under the key \<open>string(m.Receipt)\<close> read before
  the send. The deferred function reads \<open>m.Receipt\<close> again when the call ends: when
  \<open>Peer.Send\<close> failed or panicked the message was not handed over and holds what it
  held; after the wait it holds \<open>at_exit m reused\<close>. When no receipt ever arrives the
  call blocks for ever and the deferred function does not run. \<open>receiptc\<close> is a local
  variable, so the receive names the channel made for the receipt of the call.
\<close>

definition sendMessage :: "bytes Message \<Rightarrow> receipt_wait \<Rightarrow> Client \<Rightarrow> error option outcome \<times> Client" where
  "sendMessage m arrival c =
     (if length (Receipt m) = 0 then peerSend m c
      else
        (let receiptc = make_chan;
             c1 = emit (WaitPut (Receipt m)) (c\<lparr> wait := (wait c)(Receipt m \<mapsto> receiptc) \<rparr>)
         in case peerSend m c1 of
              (Return (Some err), c2) \<Rightarrow> (Return (Some err), wait_delete (Receipt m) c2)
            | (Return None, c2) \<Rightarrow>
                (case arrival of
                   Never \<Rightarrow> (Block, c2)
                 | Arrives reused \<Rightarrow>
                     (Return None,
                      wait_delete (Receipt (at_exit m reused))
                        (emit (WaiterReceive (Receipt m)) c2)))
            | (Panic v, c2) \<Rightarrow> (Panic v, wait_delete (Receipt m) c2)
            | (Block, c2) \<Rightarrow> (Block, c2)))"

definition Send :: "bytes \<Rightarrow> bytes \<Rightarrow> MessageOption list \<Rightarrow> receipt_wait \<Rightarrow> Client \<Rightarrow> error option outcome \<times> Client" where
  "Send dest data opts arrival c =
     (let m = Apply opts ((NewMessage [])\<lparr> Method := MethodSend, Dest := dest, Body := data \<rparr>)
      in sendMessage m arrival c)"

text \<open>
  \<open>SendJSON\<close>: \<open>marshalled\<close> is what \<open>json.Marshal(v)\<close> returns, the error or the data.
\<close>

definition SendJSON :: "bytes \<Rightarrow> error + bytes \<Rightarrow> MessageOption list \<Rightarrow> receipt_wait \<Rightarrow> Client
    \<Rightarrow> error option outcome \<times> Client" where
  "SendJSON dest marshalled opts arrival c =
     (case marshalled of
        Inl err \<Rightarrow> (Return (Some err), c)
      | Inr data \<Rightarrow>
          Send dest data (opts @ [WithHeader ''content-type'' ''application/json'']) arrival c)"

text \<open>\<open>Subscribe\<close> returns its named results \<open>(id, err)\<close>.\<close>

definition Subscribe :: "bytes \<Rightarrow> Handler \<Rightarrow> MessageOption list \<Rightarrow> receipt_wait \<Rightarrow> Client
    \<Rightarrow> (bytes \<times> error option) outcome \<times> Client" where
  "Subscribe dest handler opts arrival c =
     (case incr c of (id', c1) \<Rightarrow>
        (let m = Apply opts ((NewMessage [])\<lparr> Method := MethodSubscribe, ID := id', Dest := dest \<rparr>);
             c2 = emit Unlock (emit (SubsPut id' handler) ((emit Lock c1)\<lparr> subs := (subs c1)(id' \<mapsto> handler) \<rparr>))
         in case sendMessage m arrival c2 of
              (Return (Some err), c3) \<Rightarrow>
                (Return (id', Some err),
                 emit Unlock (emit (SubsDel id') ((emit Lock c3)\<lparr> subs := (subs c3)(id' := None) \<rparr>)))
            | (Return None, c3) \<Rightarrow> (Return (id', None), c3)
            | (Panic v, c3) \<Rightarrow> (Panic v, c3)
            | (Block, c3) \<Rightarrow> (Block, c3)))"

definition Unsubscribe :: "bytes \<Rightarrow> MessageOption list \<Rightarrow> receipt_wait \<Rightarrow> Client \<Rightarrow> error option outcome \<times> Client" where
  "Unsubscribe id' opts arrival c =
     (let c1 = emit Unlock (emit (SubsDel id') ((emit Lock c)\<lparr> subs := (subs c)(id' := None) \<rparr>));
          m = Apply opts ((NewMessage [])\<lparr> Method := MethodUnsubscribe, ID := id' \<rparr>)
      in sendMessage m arrival c1)"

definition Ack :: "bytes \<Rightarrow> MessageOption list \<Rightarrow> receipt_wait \<Rightarrow> Client \<Rightarrow> error option outcome \<times> Client" where
  "Ack id' opts arrival c =
     (let m = Apply opts ((NewMessage [])\<lparr> Method := MethodAck, ID := id' \<rparr>)
      in sendMessage m arrival c)"

text \<open>\<open>Nack\<close> ends with \<open>c.peer.Send(m)\<close>, not with \<open>c.sendMessage(m)\<close>.\<close>

definition Nack :: "bytes \<Rightarrow> MessageOption list \<Rightarrow> Client \<Rightarrow> error option outcome \<times> Client" where
  "Nack id' opts c =
     (let m = Apply opts ((NewMessage [])\<lparr> Method := MethodNack, ID := id' \<rparr>)
      in peerSend m c)"

text \<open>
  \<open>Connect\<close>: the deferred \<open>m.Release()\<close> runs when the function returns, after
  \<open>go c.listen()\<close>; the listen task itself is \<open>listen\<close> below.
\<close>

definition Connect :: "MessageOption list \<Rightarrow> receipt_wait \<Rightarrow> Client \<Rightarrow> error option outcome \<times> Client" where
  "Connect opts arrival c =
     (let m = Apply opts ((NewMessage [])\<lparr> Proto := STOMP, Method := MethodStomp \<rparr>)
      in case sendMessage m arrival c of
           (Return (Some err), c1) \<Rightarrow> (Return (Some err), c1)
         | (Panic v, c1) \<Rightarrow> (Panic v, c1)
         | (Block, c1) \<Rightarrow> (Block, c1)
         | (Return None, c1) \<Rightarrow>
             (case receive c1 of
                (Return None, c2) \<Rightarrow> (Return (Some EOF), c2)
              | (Panic v, c2) \<Rightarrow> (Panic v, c2)
              | (Block, c2) \<Rightarrow> (Block, c2)
              | (Return (Some m'), c2) \<Rightarrow>
                  (if Method m' \<noteq> MethodConnected
                   then (Return (Some (Errorf ''stomp: inbound message: unexpected method, want connected'')),
                         emit (Release m') c2)
                   else (Return None, emit (Release m') (emit GoListen c2)))))"

definition Disconnect :: "Client \<Rightarrow> error option outcome \<times> Client" where
  "Disconnect c =
     (let m = (NewMessage [])\<lparr> Method := MethodDisconnect \<rparr>
      in case sendMessage m Never c of
           (Panic v, c1) \<Rightarrow> (Panic v, c1)
         | (Block, c1) \<Rightarrow> (Block, c1)
         | (Return e, c1) \<Rightarrow> peerClose c1)"

definition Done :: "Client \<Rightarrow> error chan" where
  "Done c = cdone c"

subsection \<open>The listen task\<close>

definition handleReceipt :: "bytes Message \<Rightarrow> Client \<Rightarrow> unit outcome \<times> Client" where
  "handleReceipt m c =
     (let c1 = emit Unlock (emit (WaitGet (Receipt m)) (emit Lock c))
      in case wait c (Receipt m) of
           None \<Rightarrow> (Return (), emit (Noticef ''stomp client: unknown read receipt: %s'' (Receipt m)) c1)
         | Some receiptc \<Rightarrow>
             (case chan_send_buffered 1 () receiptc of
                Return ch \<Rightarrow>
                  (Return (), (emit (WaiterSend (Receipt m)) c1)\<lparr> wait := (wait c1)(Receipt m \<mapsto> ch) \<rparr>)
              | Panic v \<Rightarrow> (Panic v, c1)
              | Block \<Rightarrow> (Block, c1)))"

definition handleMessage :: "bytes Message \<Rightarrow> Client \<Rightarrow> unit outcome \<times> Client" where
  "handleMessage m c =
     (let c1 = emit Unlock (emit (SubsGet (Subs m)) (emit Lock c))
      in case subs c (Subs m) of
           None \<Rightarrow> (Return (), emit (Noticef ''stomp client: subscription not found: %s'' (Subs m)) c1)
         | Some handler \<Rightarrow> (handler m, emit (Handle m) c1))"

text \<open>The \<open>switch\<close> in the loop of \<open>listen\<close>.\<close>

definition dispatch :: "bytes Message \<Rightarrow> Client \<Rightarrow> unit outcome \<times> Client" where
  "dispatch m c =
     (if Method m = MethodMessage then handleMessage m c
      else if Method m = MethodRecipet then handleReceipt m c
      else (Return (), emit (Noticef ''stomp client: unknown message type: %s'' (Method m)) c))"

text \<open>\<open>c.done <- e\<close>: \<open>done\<close> has a buffer of one error.\<close>

definition done_send :: "error \<Rightarrow> Client \<Rightarrow> unit outcome \<times> Client" where
  "done_send e c =
     (case chan_send_buffered 1 e (cdone c) of
        Return ch \<Rightarrow> (Return (), (emit (DoneSend e) c)\<lparr> cdone := ch \<rparr>)
      | Panic v \<Rightarrow> (Panic v, c)
      | Block \<Rightarrow> (Block, c))"

lemma peer_emit [simp]: "peer (emit e c) = peer c"
  by (simp add: emit_def)

lemma peer_dispatch: "peer (snd (dispatch m c)) = peer c"
  by (simp add: dispatch_def handleMessage_def handleReceipt_def chan_send_buffered_def
      Let_def split: option.splits)

lemma receive_shorter:
  "receive c = (Return (Some m), c1) \<Longrightarrow>
     length (queue (incoming (peer c1))) < length (queue (incoming (peer c)))"
  by (auto simp: receive_def split: list.splits if_splits)

text \<open>The \<open>for\<close> loop of \<open>listen\<close>, up to its return or its panic.\<close>

function listenLoop :: "Client \<Rightarrow> unit outcome \<times> Client" where
  "listenLoop c =
     (case receive c of
        (Return None, c1) \<Rightarrow> done_send EOF c1
      | (Return (Some m), c1) \<Rightarrow>
          (case dispatch m c1 of
             (Return u, c2) \<Rightarrow> listenLoop c2
           | (Panic v, c2) \<Rightarrow> (Panic v, c2)
           | (Block, c2) \<Rightarrow> (Block, c2))
      | (Panic v, c1) \<Rightarrow> (Panic v, c1)
      | (Block, c1) \<Rightarrow> (Block, c1))"
  by pat_completeness auto
termination
proof (relation "measure (\<lambda>c. length (queue (incoming (peer c))))")
  show "wf (measure (\<lambda>c. length (queue (incoming (peer c)))))"
    by simp
next
  fix c :: Client and x1 c1 x1a m x c2 u
  assume r: "(x1, c1) = receive c" "x1 = Return x1a" "x1a = Some m"
    and d: "(x, c2) = dispatch m c1"
  from r have "length (queue (incoming (peer c1))) < length (queue (incoming (peer c)))"
    by (auto dest: receive_shorter [OF sym])
  moreover from d have "peer c2 = peer c1"
    by (metis peer_dispatch snd_conv)
  ultimately show "(c2, c) \<in> measure (\<lambda>c. length (queue (incoming (peer c))))"
    by simp
qed

declare listenLoop.simps [simp del]

text \<open>
  The deferred function of \<open>listen\<close>, run with the recovered value \<open>r\<close>: the type
  assertion \<open>r.(error)\<close> panics when \<open>r\<close> does not implement \<open>error\<close>.
\<close>

definition recovered :: "panic_value \<Rightarrow> Client \<Rightarrow> unit outcome \<times> Client" where
  "recovered r c =
     (let c1 = emit (Warningf ''stomp client: recover panic: %s'' r) c
      in case r of
           ErrorValue e \<Rightarrow> done_send e c1
         | OtherValue s \<Rightarrow>
             (Panic (ErrorValue (RuntimeError ''interface conversion: string is not error: missing method Error'')), c1))"

definition listen :: "Client \<Rightarrow> unit outcome \<times> Client" where
  "listen c =
     (case listenLoop c of
        (Panic r, c1) \<Rightarrow> recovered r c1
      | (Return u, c1) \<Rightarrow> (Return u, c1)
      | (Block, c1) \<Rightarrow> (Block, c1))"

section \<open>Properties of traces\<close>

text \<open>The events that change \<open>seq\<close>, \<open>subs\<close> or \<open>wait\<close>.\<close>

fun is_mutation :: "event \<Rightarrow> bool" where
  "is_mutation SeqIncr = True"
| "is_mutation (SubsPut k h) = True"
| "is_mutation (SubsDel k) = True"
| "is_mutation (WaitPut k) = True"
| "is_mutation (WaitDel k) = True"
| "is_mutation e = False"

text \<open>The events that are I/O: an operation of the peer or of a channel.\<close>

fun is_io :: "event \<Rightarrow> bool" where
  "is_io (PeerSend m) = True"
| "is_io PeerReceive = True"
| "is_io PeerClose = True"
| "is_io (WaiterSend k) = True"
| "is_io (WaiterReceive k) = True"
| "is_io (DoneSend e) = True"
| "is_io e = False"

text \<open>
  The locking rule, checked along a trace; \<open>held\<close> says whether the mutex is held:
  every mutation happens while it is held, every I/O while it is not, and it is locked
  only when free and unlocked only when held.
\<close>

fun lock_discipline :: "bool \<Rightarrow> event list \<Rightarrow> bool" where
  "lock_discipline held [] = True"
| "lock_discipline held (e # es) =
     (if e = Lock then \<not> held \<and> lock_discipline True es
      else if e = Unlock then held \<and> lock_discipline False es
      else (if is_mutation e then held else True)
         \<and> (if is_io e then \<not> held else True)
         \<and> lock_discipline held es)"

text \<open>
  The receipt rule, checked along a trace; \<open>ws\<close> are the receipt ids with a waiter in
  \<open>wait\<close>: a message handed to \<open>Peer.Send\<close> with a non-empty \<open>Receipt\<close> and a method
  other than RECEIPT has its waiter registered at that moment.
\<close>

fun waiter_registered :: "string list \<Rightarrow> event list \<Rightarrow> bool" where
  "waiter_registered ws [] = True"
| "waiter_registered ws (WaitPut k # es) = waiter_registered (k # ws) es"
| "waiter_registered ws (WaitDel k # es) = waiter_registered (removeAll k ws) es"
| "waiter_registered ws (PeerSend m # es) =
     ((if length (Receipt m) \<noteq> 0 \<and> Method m \<noteq> MethodRecipet then Receipt m \<in> set ws else True)
      \<and> waiter_registered ws es)"
| "waiter_registered ws (e # es) = waiter_registered ws es"

text \<open>The identifiers of \<open>n\<close> successive calls of \<open>incr\<close>, and the client after them.\<close>

fun incr_times :: "nat \<Rightarrow> Client \<Rightarrow> bytes list \<times> Client" where
  "incr_times 0 c = ([], c)"
| "incr_times (Suc n) c =
     (case incr c of (i, c1) \<Rightarrow> (case incr_times n c1 of (is, c2) \<Rightarrow> (i # is, c2)))"

section \<open>Definitions used in the proofs\<close>

text \<open>Reading a decimal text back: the value of a digit and of a digit string.\<close>

definition digit_val :: "char \<Rightarrow> nat" where
  "digit_val ch = of_char ch - 48"

definition undigits :: "string \<Rightarrow> nat" where
  "undigits s = foldl (\<lambda>a ch. 10 * a + digit_val ch) 0 s"

text \<open>
  The frames of a byte stream: the bytes before each NUL, in order (an empty frame is a
  heart-beat); the bytes after the last NUL belong to no frame.
\<close>

fun frames_from :: "bytes \<Rightarrow> bytes \<Rightarrow> bytes list" where
  "frames_from acc [] = []"
| "frames_from acc (b # bs) =
     (if b = NUL then rev acc # frames_from [] bs else frames_from (b # acc) bs)"

definition frames :: "bytes \<Rightarrow> bytes list" where
  "frames stream = frames_from [] stream"

text \<open>The events of one call of \<open>sendMessage\<close>, by the way the call ends.\<close>

definition send_events :: "bytes Message \<Rightarrow> receipt_wait \<Rightarrow> Client \<Rightarrow> event list" where
  "send_events m arrival c =
     (if length (Receipt m) = 0 then [PeerSend m]
      else if closed (pdone (peer c)) \<or> closed (outgoing (peer c))
        then [WaitPut (Receipt m), PeerSend m, WaitDel (Receipt m)]
      else (case arrival of
              Never \<Rightarrow> [WaitPut (Receipt m), PeerSend m]
            | Arrives reused \<Rightarrow>
                [WaitPut (Receipt m), PeerSend m, WaiterReceive (Receipt m),
                 WaitDel (Receipt (at_exit m reused))]))"

text \<open>
  Every key of \<open>subs\<close> is an identifier that \<open>incr\<close> has already returned: the
  text of a counter value below \<open>seq\<close>.
\<close>

definition ids_issued :: "Client \<Rightarrow> bool" where
  "ids_issued c = (\<forall>k \<in> dom (subs c). \<exists>i < unat (seq c). k = AppendInt (word_of_nat i))"

section \<open>Decimal text is injective\<close>

lemma digit_val_digit: "d < 10 \<Longrightarrow> digit_val (digit d) = d"
proof -
  assume "d < 10"
  then have "d \<in> {0, 1, 2, 3, 4, 5, 6, 7, 8, 9}" by auto
  then show ?thesis
    by (auto simp: digit_val_def digit_def)
qed

lemma digit_not_minus: "d < 10 \<Longrightarrow> digit d \<noteq> CHR ''-''"
proof -
  assume "d < 10"
  then have "d \<in> {0, 1, 2, 3, 4, 5, 6, 7, 8, 9}" by auto
  then show ?thesis
    by (auto simp: digit_def)
qed

lemma undigits_snoc: "undigits (s @ [ch]) = 10 * undigits s + digit_val ch"
  by (simp add: undigits_def)

lemma undigits_digits: "undigits (digits n) = n"
proof (induction n rule: digits.induct)
  case (1 n)
  show ?case
  proof (cases "n < 10")
    case True
    then show ?thesis
      by (simp add: undigits_def digit_val_digit)
  next
    case False
    with "1" have "undigits (digits (n div 10)) = n div 10" by simp
    with False show ?thesis
      by (subst digits.simps) (simp add: undigits_snoc digit_val_digit)
  qed
qed

lemma digits_inj: "digits a = digits b \<Longrightarrow> a = b"
  by (metis undigits_digits)

lemma hd_digits: "hd (digits n) \<noteq> CHR ''-''"
proof (induction n rule: digits.induct)
  case (1 n)
  show ?case
  proof (cases "n < 10")
    case True
    then show ?thesis by (simp add: digit_not_minus)
  next
    case False
    have ne: "digits (n div 10) \<noteq> []"
      by (subst digits.simps) simp
    from False "1" have "hd (digits (n div 10)) \<noteq> CHR ''-''" by simp
    with False ne show ?thesis
      by (subst digits.simps) simp
  qed
qed


lemma AppendInt_inj: "AppendInt a = AppendInt b \<Longrightarrow> a = b"
proof -
  assume eq: "AppendInt a = AppendInt b"
  have neg: "\<And>x y. CHR ''-'' # digits x \<noteq> digits y"
    by (metis hd_digits list.sel(1))
  have "sint a = sint b"
  proof (cases "sint a < 0"; cases "sint b < 0")
    assume "sint a < 0" "sint b < 0"
    with eq have "digits (nat (- sint a)) = digits (nat (- sint b))"
      by (simp add: AppendInt_def)
    then have "nat (- sint a) = nat (- sint b)" by (rule digits_inj)
    with \<open>sint a < 0\<close> \<open>sint b < 0\<close> show ?thesis by simp
  next
    assume "sint a < 0" "\<not> sint b < 0"
    with eq neg show ?thesis by (simp add: AppendInt_def)
  next
    assume "\<not> sint a < 0" "sint b < 0"
    with eq neg [of "nat (- sint b)" "nat (sint a)"] show ?thesis by (simp add: AppendInt_def)
  next
    assume "\<not> sint a < 0" "\<not> sint b < 0"
    with eq have "digits (nat (sint a)) = digits (nat (sint b))"
      by (simp add: AppendInt_def)
    then have "nat (sint a) = nat (sint b)" by (rule digits_inj)
    with \<open>\<not> sint a < 0\<close> \<open>\<not> sint b < 0\<close> show ?thesis by simp
  qed
  then show "a = b" by (rule signed_word_eqI)
qed


lemma AppendInt_small: "k < 2 ^ 63 \<Longrightarrow> AppendInt (word_of_nat k) = digits k"
proof -
  assume k: "k < 2 ^ 63"
  have "sint (word_of_nat k :: 64 word) = int k"
    using k by (simp add: signed_of_nat signed_take_bit_int_eq_self)
  then show ?thesis by (simp add: AppendInt_def)
qed


section \<open>The serializer: the receipt header\<close>

lemmas writeTo_defs = writeTo_def NewMessage_def method_headers_def includeReceiptHeader_def
  Method_defs Header_defs line_def opt_line_def separator_def

text \<open>
  For a message with a receipt and a method other than RECEIPT, \<open>writeTo\<close> writes the
  method lines, then one line made of \<open>HeaderReceiptID\<close>, the separator and the receipt,
  then the generic header items, a blank line and the body; for RECEIPT the method line
  \<open>receipt-id\<close> is the only receipt line.
\<close>

lemma writeTo_with_receipt:
  "length (Receipt m) \<noteq> 0 \<Longrightarrow> Method m \<noteq> MethodRecipet \<Longrightarrow>
     writeTo m = Method m @ newline @ method_headers m
       @ HeaderReceiptID @ separator @ Receipt m @ newline
       @ write_items (itemc (Header m)) 0 (items (Header m)) @ newline @ Body m"
  by (simp add: writeTo_def includeReceiptHeader_def line_def)

lemma writeTo_RECEIPT:
  "Method m = MethodRecipet \<Longrightarrow>
     writeTo m = MethodRecipet @ newline @ HeaderReceiptID @ separator @ Receipt m @ newline
       @ write_items (itemc (Header m)) 0 (items (Header m)) @ newline @ Body m"
  by (simp add: writeTo_def includeReceiptHeader_def method_headers_def line_def Method_defs)

text \<open>The loop over the header items writes the first \<open>itemc\<close> items, in order.\<close>

lemma write_items_take:
  "0 \<le> i \<Longrightarrow> i \<le> c \<Longrightarrow>
     write_items c i its = concat (map (\<lambda>item. line (fst item) (snd item)) (take (nat (c - i)) its))"
proof (induction its arbitrary: i)
  case Nil
  then show ?case by simp
next
  case (Cons item rest)
  show ?case
  proof (cases "c = i")
    case True
    then show ?thesis by simp
  next
    case False
    with Cons.prems have lt: "i + 1 \<le> c" "0 \<le> i + 1" by simp_all
    from False Cons.prems have "nat (c - i) = Suc (nat (c - (i + 1)))" by simp
    with False Cons.IH [OF lt(2) lt(1)] show ?thesis by simp
  qed
qed

text \<open>
  C5. Stated property: for a message with a non-empty \<open>Receipt\<close> and a method other
  than RECEIPT the serializer emits, after the method-specific headers, a header line
  whose name is exactly \<open>receipt\<close>. The code writes \<open>HeaderReceiptID\<close> there, the name of
  the RECEIPT frame's own header: a SEND frame to \<open>/q\<close> with receipt \<open>R1\<close> and body
  \<open>hi\<close> is written with the line \<open>receipt-id:R1\<close>, and not with \<open>receipt:R1\<close>.
\<close>

theorem writeTo_receipt_header_name:
  "writeTo ((NewMessage 0)\<lparr> Method := MethodSend, Dest := ''/q'', Receipt := ''R1'', Body := ''hi'' \<rparr>)
     = ''SEND'' @ newline @ ''destination:/q'' @ newline @ ''receipt-id:R1'' @ newline @ newline @ ''hi''
   \<and> writeTo ((NewMessage 0)\<lparr> Method := MethodSend, Dest := ''/q'', Receipt := ''R1'', Body := ''hi'' \<rparr>)
     \<noteq> ''SEND'' @ newline @ ''destination:/q'' @ newline @ ''receipt:R1'' @ newline @ newline @ ''hi''"
  by (simp add: writeTo_defs)

section \<open>The connection peer: Close and the reader\<close>


lemma peer_Close_closed:
  "closed (pdone c) \<Longrightarrow> peer_Close c = (Return (Some EOF), c)"
  by (simp add: peer_Close_def peer_close_def)

lemma Close_times_closed:
  "closed (pdone c) \<Longrightarrow> Close_times n c = c"
  by (induction n) (simp_all add: peer_Close_closed)

lemma peer_Send_closed:
  "closed (pdone c) \<Longrightarrow> peer_Send m c = (Return (Some EOF), c)"
  by (simp add: peer_Send_def)

lemma peer_Close_open:
  "\<not> closed (pdone c) \<Longrightarrow> \<not> closed (incoming c) \<Longrightarrow> \<not> closed (outgoing c) \<Longrightarrow>
     peer_Close c = (Return None,
       c\<lparr> pdone := (pdone c)\<lparr> closed := True \<rparr>,
          incoming := (incoming c)\<lparr> closed := True \<rparr>,
          outgoing := (outgoing c)\<lparr> closed := True \<rparr> \<rparr>)"
  by (simp add: peer_Close_def peer_close_def chan_close_def)

text \<open>
  C7. On a peer whose channels are open, the first \<open>Close\<close> returns no error
  and closes \<open>done\<close>, \<open>incoming\<close> and \<open>outgoing\<close>, each once, leaving their contents
  as they were; after it, every further \<open>Close\<close> (the call after \<open>n\<close> further ones)
  returns \<open>io.EOF\<close> without a panic and leaves the peer unchanged, so no channel is
  closed again; and \<open>Send\<close> returns \<open>io.EOF\<close> and leaves the peer unchanged, so the
  message is not enqueued.
\<close>

theorem Close_idempotent:
  assumes "\<not> closed (pdone c)" and "\<not> closed (incoming c)" and "\<not> closed (outgoing c)"
  shows "peer_Close c = (Return None,
           c\<lparr> pdone := (pdone c)\<lparr> closed := True \<rparr>,
              incoming := (incoming c)\<lparr> closed := True \<rparr>,
              outgoing := (outgoing c)\<lparr> closed := True \<rparr> \<rparr>)
       \<and> peer_Close (Close_times n (snd (peer_Close c))) = (Return (Some EOF), snd (peer_Close c))
       \<and> peer_Send m (Close_times n (snd (peer_Close c))) = (Return (Some EOF), snd (peer_Close c))"
proof -
  let ?c1 = "c\<lparr> pdone := (pdone c)\<lparr> closed := True \<rparr>,
              incoming := (incoming c)\<lparr> closed := True \<rparr>,
              outgoing := (outgoing c)\<lparr> closed := True \<rparr> \<rparr>"
  have first: "peer_Close c = (Return None, ?c1)"
    using assms by (rule peer_Close_open)
  have cl: "closed (pdone ?c1)" by simp
  have again: "Close_times n ?c1 = ?c1"
    using cl by (rule Close_times_closed)
  show ?thesis
    using first again peer_Close_closed [OF cl] peer_Send_closed [OF cl] by simp
qed

theorem Close_idempotent_witness:
  "\<not> closed (pdone (Conn :: inbound connPeer))
   \<and> (peer_Close (Conn :: inbound connPeer) = (Return None,
           (Conn :: inbound connPeer)\<lparr> pdone := (pdone (Conn :: inbound connPeer))\<lparr> closed := True \<rparr>,
              incoming := (incoming (Conn :: inbound connPeer))\<lparr> closed := True \<rparr>,
              outgoing := (outgoing (Conn :: inbound connPeer))\<lparr> closed := True \<rparr> \<rparr>)
       \<and> peer_Close (Close_times 2 (snd (peer_Close (Conn :: inbound connPeer))))
           = (Return (Some EOF), snd (peer_Close (Conn :: inbound connPeer)))
       \<and> peer_Send (Parsed ''SEND'') (Close_times 2 (snd (peer_Close (Conn :: inbound connPeer))))
           = (Return (Some EOF), snd (peer_Close (Conn :: inbound connPeer))))"
proof -
  have h1: "\<not> closed (pdone (Conn :: inbound connPeer))"
    and h2: "\<not> closed (incoming (Conn :: inbound connPeer))"
    and h3: "\<not> closed (outgoing (Conn :: inbound connPeer))"
    by (simp_all add: Conn_def make_chan_def)
  show ?thesis
    using h1 Close_idempotent [OF h1 h2 h3, of 2 "Parsed ''SEND''"] by blast
qed

lemma ReadBytes_frame:
  "delim \<notin> set frame \<Longrightarrow> ReadBytes delim (frame @ delim # rest) = ((frame @ [delim], None), rest)"
  by (induction frame) auto

lemma readLoop_frame:
  assumes "NUL \<notin> set frame" and "frame \<noteq> []"
    and "\<not> closed (pdone c)" and "\<not> closed (incoming c)"
  shows "readLoop parse (frame @ NUL # rest) c =
         readLoop parse rest (c\<lparr> incoming := (incoming c)\<lparr> queue := queue (incoming c) @ [parse frame] \<rparr> \<rparr>)"
  using assms
  by (subst readLoop.simps) (simp add: ReadBytes_frame chan_send_def)

lemma readLoop_end: "NUL \<notin> set s \<Longrightarrow> readLoop parse s c = (Return (), c)"
proof -
  assume a: "NUL \<notin> set s"
  have "\<exists>buf. ReadBytes NUL s = ((buf, Some EOF), [])"
    using a by (induction s) auto
  then show ?thesis
    by (subst readLoop.simps) auto
qed

lemma bufferLimit_value: "bufferLimit = 1048576"
  by (simp add: bufferLimit_def)

text \<open>The whole run of the reader on an open peer: every non-empty frame, in order.\<close>

lemma frames_from_frame:
  "NUL \<notin> set f \<Longrightarrow> frames_from acc (f @ NUL # rest) = (rev acc @ f) # frames_from [] rest"
  by (induction f arbitrary: acc) auto

lemma frames_from_end: "NUL \<notin> set s \<Longrightarrow> frames_from acc s = []"
  by (induction s arbitrary: acc) auto

lemma frames_frame: "NUL \<notin> set f \<Longrightarrow> frames (f @ NUL # rest) = f # frames rest"
  by (simp add: frames_def frames_from_frame)

lemma frames_heartbeat: "frames (NUL # rest) = [] # frames rest"
  by (simp add: frames_def)

lemma frames_end: "NUL \<notin> set s \<Longrightarrow> frames s = []"
  by (simp add: frames_def frames_from_end)

lemma readLoop_heartbeat: "readLoop parse (NUL # rest) c = readLoop parse rest c"
  by (subst readLoop.simps) simp

lemma readLoop_all_frames:
  assumes "\<not> closed (pdone c)" and "\<not> closed (incoming c)"
  shows "readLoop parse stream c = (Return (),
           c\<lparr> incoming := (incoming c)\<lparr> queue := queue (incoming c)
                @ map parse (filter (\<lambda>f. f \<noteq> []) (frames stream)) \<rparr> \<rparr>)"
  using assms
proof (induction "length stream" arbitrary: stream c rule: less_induct)
  case less
  show ?case
  proof (cases "NUL \<in> set stream")
    case False
    then show ?thesis
      by (simp add: readLoop_end frames_end)
  next
    case True
    then obtain f rest where st: "stream = f @ NUL # rest" and nf: "NUL \<notin> set f"
      by (meson split_list_first)
    have shorter: "length rest < length stream"
      by (simp add: st)
    show ?thesis
    proof (cases "f = []")
      case True
      with st have "readLoop parse stream c = readLoop parse rest c"
        by (simp add: readLoop_heartbeat)
      also have "\<dots> = (Return (),
           c\<lparr> incoming := (incoming c)\<lparr> queue := queue (incoming c)
                @ map parse (filter (\<lambda>f. f \<noteq> []) (frames rest)) \<rparr> \<rparr>)"
        by (rule less.hyps [OF shorter less.prems])
      finally show ?thesis
        using True st by (simp add: frames_heartbeat)
    next
      case False
      let ?c1 = "c\<lparr> incoming := (incoming c)\<lparr> queue := queue (incoming c) @ [parse f] \<rparr> \<rparr>"
      have o: "\<not> closed (pdone ?c1)" "\<not> closed (incoming ?c1)"
        using less.prems by simp_all
      from st have "readLoop parse stream c = readLoop parse rest ?c1"
        by (simp add: readLoop_frame [OF nf False less.prems])
      also have "\<dots> = (Return (),
           ?c1\<lparr> incoming := (incoming ?c1)\<lparr> queue := queue (incoming ?c1)
                @ map parse (filter (\<lambda>f. f \<noteq> []) (frames rest)) \<rparr> \<rparr>)"
        by (rule less.hyps [OF shorter o])
      finally show ?thesis
        using False st nf by (simp add: frames_frame)
    qed
  qed
qed

lemma readInto_all_frames:
  assumes "\<not> closed (pdone c)" and "\<not> closed (incoming c)" and "\<not> closed (outgoing c)"
  shows "readInto parse stream c = (Return (),
           c\<lparr> pdone := (pdone c)\<lparr> closed := True \<rparr>,
              incoming := (incoming c)\<lparr> closed := True, queue := queue (incoming c)
                @ map parse (filter (\<lambda>f. f \<noteq> []) (frames stream)) \<rparr>,
              outgoing := (outgoing c)\<lparr> closed := True \<rparr> \<rparr>)"
  using assms
  by (simp add: readInto_def readLoop_all_frames peer_close_def chan_close_def)

text \<open>
  C6. The constant \<open>bufferLimit\<close> is 1 MiB, and \<open>readInto\<close> never reads it:
  for every stream that starts with a frame of at least one byte and its NUL, whatever
  the length of the frame, an open peer parses the frame, enqueues the message on
  \<open>incoming\<close> and reads on with the bytes after the NUL. On a peer whose three
  channels are open, the run on any stream enqueues the messages of all its non-empty
  frames, in order and whatever their lengths, and then closes the peer.
\<close>

theorem readInto_no_frame_limit:
  assumes "NUL \<notin> set frame" and "frame \<noteq> []"
    and "\<not> closed (pdone c)" and "\<not> closed (incoming c)"
  shows "bufferLimit = 1048576
       \<and> readInto parse (frame @ NUL # rest) c =
         readInto parse rest (c\<lparr> incoming := (incoming c)\<lparr> queue := queue (incoming c) @ [parse frame] \<rparr> \<rparr>)
       \<and> (\<not> closed (outgoing c) \<longrightarrow>
           readInto parse stream c = (Return (),
             c\<lparr> pdone := (pdone c)\<lparr> closed := True \<rparr>,
                incoming := (incoming c)\<lparr> closed := True, queue := queue (incoming c)
                  @ map parse (filter (\<lambda>f. f \<noteq> []) (frames stream)) \<rparr>,
                outgoing := (outgoing c)\<lparr> closed := True \<rparr> \<rparr>))"
proof -
  have step: "readInto parse (frame @ NUL # rest) c =
      readInto parse rest (c\<lparr> incoming := (incoming c)\<lparr> queue := queue (incoming c) @ [parse frame] \<rparr> \<rparr>)"
    using assms by (simp add: readInto_def readLoop_frame)
  have whole: "\<not> closed (outgoing c) \<longrightarrow>
      readInto parse stream c = (Return (),
        c\<lparr> pdone := (pdone c)\<lparr> closed := True \<rparr>,
           incoming := (incoming c)\<lparr> closed := True, queue := queue (incoming c)
             @ map parse (filter (\<lambda>f. f \<noteq> []) (frames stream)) \<rparr>,
           outgoing := (outgoing c)\<lparr> closed := True \<rparr> \<rparr>)"
    using assms(3,4) by (simp add: readInto_all_frames)
  from bufferLimit_value step whole show ?thesis by (intro conjI)
qed

text \<open>
  The property as first stated fails: a frame of 1048577 bytes, one more than \<open>bufferLimit\<close>, is
  parsed and enqueued like any other, and the loop ends only at the end of the stream.
\<close>

theorem readInto_frame_limit_counterexample:
  "bufferLimit < length (replicate 1048577 (CHR ''A''))
   \<and> readInto Parsed (replicate 1048577 (CHR ''A'') @ [NUL]) Conn =
       (Return (), \<lparr> pdone = \<lparr> closed = True, queue = [] \<rparr>,
                     incoming = \<lparr> closed = True, queue = [Parsed (replicate 1048577 (CHR ''A''))] \<rparr>,
                     outgoing = \<lparr> closed = True, queue = [] \<rparr> \<rparr>)"
proof -
  have n: "NUL \<notin> set (replicate 1048577 (CHR ''A''))"
    by (simp add: NUL_def)
  have ne: "replicate 1048577 (CHR ''A'') \<noteq> []"
    by simp
  have "readLoop Parsed (replicate 1048577 (CHR ''A'') @ [NUL]) Conn =
        readLoop Parsed [] (Conn\<lparr> incoming := (incoming Conn)\<lparr> queue := queue (incoming Conn) @ [Parsed (replicate 1048577 (CHR ''A''))] \<rparr> \<rparr>)"
    by (rule readLoop_frame [OF n ne]) (simp_all add: Conn_def make_chan_def)
  then show ?thesis
    by (simp add: readInto_def readLoop_end bufferLimit_value peer_close_def chan_close_def
        Conn_def make_chan_def)
qed

theorem readInto_no_frame_limit_witness:
  "NUL \<notin> set ''SEND'' \<and> ''SEND'' \<noteq> []
   \<and> readInto Parsed (''SEND'' @ NUL # ''ACK'' @ [NUL]) Conn =
     readInto Parsed (''ACK'' @ [NUL]) (Conn\<lparr> incoming := (incoming Conn)\<lparr> queue := queue (incoming Conn) @ [Parsed ''SEND''] \<rparr> \<rparr>)
   \<and> readInto Parsed (''SEND'' @ NUL # NUL # ''ACK'' @ [NUL]) Conn =
       (Return (), \<lparr> pdone = \<lparr> closed = True, queue = [] \<rparr>,
                     incoming = \<lparr> closed = True, queue = [Parsed ''SEND'', Parsed ''ACK''] \<rparr>,
                     outgoing = \<lparr> closed = True, queue = [] \<rparr> \<rparr>)"
proof -
  have h1: "NUL \<notin> set ''SEND''" and h2: "''SEND'' \<noteq> []"
    and h3: "\<not> closed (pdone (Conn :: inbound connPeer))"
    and h4: "\<not> closed (incoming (Conn :: inbound connPeer))"
    and h5: "\<not> closed (outgoing (Conn :: inbound connPeer))"
    by (simp_all add: NUL_def Conn_def make_chan_def)
  have p: "readInto Parsed (''SEND'' @ NUL # ''ACK'' @ [NUL]) Conn =
      readInto Parsed (''ACK'' @ [NUL])
        (Conn\<lparr> incoming := (incoming Conn)\<lparr> queue := queue (incoming Conn) @ [Parsed ''SEND''] \<rparr> \<rparr>)"
    using readInto_no_frame_limit [OF h1 h2 h3 h4,
        where parse = Parsed and rest = "''ACK'' @ [NUL]" and stream = "[]",
        THEN conjunct2, THEN conjunct1]
    by simp
  have q: "readInto Parsed (''SEND'' @ NUL # NUL # ''ACK'' @ [NUL]) (Conn :: inbound connPeer) =
      (Return (), \<lparr> pdone = \<lparr> closed = True, queue = [] \<rparr>,
                    incoming = \<lparr> closed = True, queue = [Parsed ''SEND'', Parsed ''ACK''] \<rparr>,
                    outgoing = \<lparr> closed = True, queue = [] \<rparr> \<rparr>)"
    using readInto_no_frame_limit [OF h1 h2 h3 h4,
        where parse = Parsed and rest = "[]" and stream = "''SEND'' @ NUL # NUL # ''ACK'' @ [NUL]",
        THEN conjunct2, THEN conjunct2, rule_format, OF h5]
    by (simp add: frames_def NUL_def Conn_def make_chan_def)
  from h1 h2 p q show ?thesis by (intro conjI)
qed

section \<open>The client: sending\<close>

lemmas message_defs = Apply_def NewMessage_def WithReceipt_def Method_defs

lemma incr_eq:
  "incr c = (AppendInt (seq c), c\<lparr> seq := seq c + 1, trace := trace c @ [Lock, SeqIncr, Unlock] \<rparr>)"
  by (simp add: incr_def emit_def Let_def)


lemma peerSend_open:
  "\<not> closed (pdone (peer c)) \<Longrightarrow> \<not> closed (outgoing (peer c)) \<Longrightarrow>
     peerSend m c = (Return None,
       c\<lparr> peer := (peer c)\<lparr> outgoing := (outgoing (peer c))\<lparr> queue := queue (outgoing (peer c)) @ [m] \<rparr> \<rparr>,
          trace := trace c @ [PeerSend m] \<rparr>)"
  by (simp add: peerSend_def peer_Send_def chan_send_def emit_def)

lemma peerSend_panic:
  "\<not> closed (pdone (peer c)) \<Longrightarrow> closed (outgoing (peer c)) \<Longrightarrow>
     peerSend m c = (Panic (ErrorValue (RuntimeError ''send on closed channel'')),
       c\<lparr> trace := trace c @ [PeerSend m] \<rparr>)"
  by (simp add: peerSend_def peer_Send_def chan_send_def emit_def)

text \<open>The ways a call of \<open>sendMessage\<close> ends, and the one where it does not.\<close>

lemma sendMessage_no_receipt:
  "length (Receipt m) = 0 \<Longrightarrow> sendMessage m arrival c = peerSend m c"
  by (simp add: sendMessage_def)

lemma sendMessage_closed:
  "length (Receipt m) \<noteq> 0 \<Longrightarrow> closed (pdone (peer c)) \<Longrightarrow>
     sendMessage m arrival c = (Return (Some EOF),
       c\<lparr> wait := (wait c)(Receipt m := None),
          trace := trace c @ [WaitPut (Receipt m), PeerSend m, WaitDel (Receipt m)] \<rparr>)"
  by (simp add: sendMessage_def peerSend_def peer_Send_def emit_def wait_delete_def Let_def)

lemma sendMessage_panic:
  "length (Receipt m) \<noteq> 0 \<Longrightarrow> \<not> closed (pdone (peer c)) \<Longrightarrow> closed (outgoing (peer c)) \<Longrightarrow>
     sendMessage m arrival c = (Panic (ErrorValue (RuntimeError ''send on closed channel'')),
       c\<lparr> wait := (wait c)(Receipt m := None),
          trace := trace c @ [WaitPut (Receipt m), PeerSend m, WaitDel (Receipt m)] \<rparr>)"
  by (simp add: sendMessage_def peerSend_def peer_Send_def chan_send_def emit_def wait_delete_def Let_def)

text \<open>
  After the wait the deferred function deletes the key that the message holds by then,
  and the waiter written before the send stays unless that key is the same.
\<close>

lemma sendMessage_arrives:
  "length (Receipt m) \<noteq> 0 \<Longrightarrow> \<not> closed (pdone (peer c)) \<Longrightarrow> \<not> closed (outgoing (peer c)) \<Longrightarrow>
     sendMessage m (Arrives reused) c = (Return None,
       c\<lparr> peer := (peer c)\<lparr> outgoing := (outgoing (peer c))\<lparr> queue := queue (outgoing (peer c)) @ [m] \<rparr> \<rparr>,
          wait := ((wait c)(Receipt m \<mapsto> make_chan))(Receipt (at_exit m reused) := None),
          trace := trace c @ [WaitPut (Receipt m), PeerSend m, WaiterReceive (Receipt m),
            WaitDel (Receipt (at_exit m reused))] \<rparr>)"
  by (simp add: sendMessage_def peerSend_def peer_Send_def chan_send_def emit_def wait_delete_def Let_def)

lemma sendMessage_blocked:
  "length (Receipt m) \<noteq> 0 \<Longrightarrow> \<not> closed (pdone (peer c)) \<Longrightarrow> \<not> closed (outgoing (peer c)) \<Longrightarrow>
     sendMessage m Never c = (Block,
       c\<lparr> peer := (peer c)\<lparr> outgoing := (outgoing (peer c))\<lparr> queue := queue (outgoing (peer c)) @ [m] \<rparr> \<rparr>,
          wait := (wait c)(Receipt m \<mapsto> make_chan),
          trace := trace c @ [WaitPut (Receipt m), PeerSend m] \<rparr>)"
  by (simp add: sendMessage_def peerSend_def peer_Send_def chan_send_def emit_def wait_delete_def Let_def)

lemma Receipt_Reset [simp]: "Receipt (Reset m) = []"
  by (simp add: Reset_def)

lemma at_exit_simps [simp]:
  "at_exit m None = Reset m" "at_exit m (Some m') = m'"
  by (simp_all add: at_exit_def)

lemma peerSend_trace: "trace (snd (peerSend m c)) = trace c @ [PeerSend m]"
  by (simp add: peerSend_def emit_def split: prod.splits)

lemma peerSend_fields:
  "subs (snd (peerSend m c)) = subs c" "wait (snd (peerSend m c)) = wait c"
  "seq (snd (peerSend m c)) = seq c" "cdone (snd (peerSend m c)) = cdone c"
  by (simp_all add: peerSend_def emit_def split: prod.splits)

lemma sendMessage_cases:
  obtains (no_receipt) "length (Receipt m) = 0"
  | (closed) "length (Receipt m) \<noteq> 0" "closed (pdone (peer c))"
  | (panic) "length (Receipt m) \<noteq> 0" "\<not> closed (pdone (peer c))" "closed (outgoing (peer c))"
  | (arrives) reused where "length (Receipt m) \<noteq> 0" "\<not> closed (pdone (peer c))"
      "\<not> closed (outgoing (peer c))" "arrival = Arrives reused"
  | (blocked) "length (Receipt m) \<noteq> 0" "\<not> closed (pdone (peer c))" "\<not> closed (outgoing (peer c))"
      "arrival = Never"
  by (cases arrival) blast+

lemma sendMessage_trace:
  "trace (snd (sendMessage m arrival c)) = trace c @ send_events m arrival c"
  by (rule sendMessage_cases [where m = m and c = c and arrival = arrival])
     (simp_all add: sendMessage_no_receipt peerSend_trace sendMessage_closed sendMessage_panic
        sendMessage_arrives sendMessage_blocked send_events_def)

lemma sendMessage_fields:
  "subs (snd (sendMessage m arrival c)) = subs c" "seq (snd (sendMessage m arrival c)) = seq c"
  "cdone (snd (sendMessage m arrival c)) = cdone c"
  by (rule sendMessage_cases [where m = m and c = c and arrival = arrival];
      simp add: sendMessage_no_receipt peerSend_fields sendMessage_closed sendMessage_panic
        sendMessage_arrives sendMessage_blocked)+


text \<open>Every call of \<open>sendMessage\<close> keeps the receipt rule.\<close>

lemma sendMessage_waiter_registered:
  "waiter_registered ws (send_events m arrival c)"
  by (simp add: send_events_def split: receipt_wait.splits)

text \<open>
  When \<open>Peer.Send\<close> fails the waiter is removed; when the receipt arrives and the
  released message has not been given the same receipt again, the waiter stays.
\<close>

lemma sendMessage_failed_removes_waiter:
  assumes "length (Receipt m) \<noteq> 0" and "closed (pdone (peer c))"
  shows "fst (sendMessage m arrival c) = Return (Some EOF)
       \<and> wait (snd (sendMessage m arrival c)) (Receipt m) = None"
  using assms by (simp add: sendMessage_closed)

lemma sendMessage_receipt_leaves_waiter:
  assumes "length (Receipt m) \<noteq> 0" and "\<not> closed (pdone (peer c))"
    and "\<not> closed (outgoing (peer c))" and "Receipt (at_exit m reused) \<noteq> Receipt m"
  shows "fst (sendMessage m (Arrives reused) c) = Return None
       \<and> wait (snd (sendMessage m (Arrives reused) c)) (Receipt m) = Some make_chan"
  using assms by (simp add: sendMessage_arrives)

text \<open>
  C10. Stated property: \<open>sendMessage\<close> removes the waiter of the receipt id on every
  path, also after the receipt arrives, so that \<open>wait\<close> is afterwards what it was
  before. The deferred \<open>delete\<close> reads \<open>m.Receipt\<close> when the call ends, and by the time
  a receipt arrives the writer has released the message: a SEND to \<open>/q\<close> with receipt
  \<open>42\<close> on a fresh client returns once the receipt arrives, the key deleted is the
  empty one, and the waiter of \<open>42\<close> is still in \<open>wait\<close>, which was empty before.
\<close>

theorem sendMessage_leaves_waiter:
  "sendMessage ((NewMessage [])\<lparr> Method := MethodSend, Dest := ''/q'', Receipt := ''42'' \<rparr>)
       (Arrives None) (New Conn)
     = (Return None,
        (New Conn)\<lparr> peer := Conn\<lparr> outgoing := \<lparr> closed = False, queue =
                       [(NewMessage [])\<lparr> Method := MethodSend, Dest := ''/q'', Receipt := ''42'' \<rparr>] \<rparr> \<rparr>,
                    wait := [''42'' \<mapsto> make_chan],
                    trace := [WaitPut ''42'',
                      PeerSend ((NewMessage [])\<lparr> Method := MethodSend, Dest := ''/q'', Receipt := ''42'' \<rparr>),
                      WaiterReceive ''42'', WaitDel []] \<rparr>)
   \<and> wait (New Conn) ''42'' = None
   \<and> wait (snd (sendMessage ((NewMessage [])\<lparr> Method := MethodSend, Dest := ''/q'', Receipt := ''42'' \<rparr>)
       (Arrives None) (New Conn))) ''42'' = Some make_chan"
  by (simp add: sendMessage_def peerSend_def peer_Send_def chan_send_def emit_def wait_delete_def
      Let_def New_def Conn_def make_chan_def NewMessage_def)

section \<open>The client: locks and waiters along the trace\<close>

text \<open>Sibling paths keep the locking rule; sendMessage keeps it only without a receipt.\<close>

lemma lock_discipline_incr:
  "\<exists>es. trace (snd (incr c)) = trace c @ es \<and> lock_discipline False es"
  by (simp add: incr_eq)

lemma lock_discipline_handleMessage:
  "\<exists>es. trace (snd (handleMessage m c)) = trace c @ es \<and> lock_discipline False es"
  by (simp add: handleMessage_def emit_def Let_def split: option.splits)

lemma lock_discipline_handleReceipt:
  "\<exists>es. trace (snd (handleReceipt m c)) = trace c @ es \<and> lock_discipline False es"
  by (simp add: handleReceipt_def emit_def Let_def chan_send_buffered_def split: option.splits)

lemma lock_discipline_sendMessage:
  "lock_discipline False (send_events m arrival c) = (length (Receipt m) = 0)"
  by (simp add: send_events_def split: receipt_wait.splits)

text \<open>
  C9. Stated property: every mutation of \<open>subs\<close>, \<open>wait\<close> and \<open>seq\<close> happens
  while the mutex is held. \<open>sendMessage\<close> writes \<open>c.wait\<close> and deletes from it with
  no \<open>Lock\<close> at all: the trace of \<open>Send\<close> with a receipt has the two mutations of
  \<open>wait\<close> and neither \<open>Lock\<close> nor \<open>Unlock\<close>, and breaks the locking rule.
\<close>

theorem sendMessage_mutates_wait_unlocked:
  "trace (snd (Send ''/q'' ''hi'' [WithReceipt 42] (Arrives None) (New Conn)))
     = [WaitPut ''42'',
        PeerSend ((NewMessage [])\<lparr> Method := MethodSend, Dest := ''/q'', Receipt := ''42'', Body := ''hi'' \<rparr>),
        WaiterReceive ''42'',
        WaitDel []]
   \<and> \<not> lock_discipline False (trace (snd (Send ''/q'' ''hi'' [WithReceipt 42] (Arrives None) (New Conn))))"
  by (simp add: Send_def sendMessage_def peerSend_def peer_Send_def chan_send_def emit_def
      wait_delete_def Let_def New_def Conn_def make_chan_def message_defs AppendInt_def digit_def
      Reset_def)

text \<open>\<open>Nack\<close> never touches \<open>wait\<close>, whatever its options.\<close>

lemma Nack_never_registers:
  "trace (snd (Nack id' opts c))
     = trace c @ [PeerSend (Apply opts ((NewMessage [])\<lparr> Method := MethodNack, ID := id' \<rparr>))]
   \<and> wait (snd (Nack id' opts c)) = wait c"
  by (simp add: Nack_def Let_def peerSend_trace peerSend_fields)

lemma Ack_waiter_registered:
  "\<exists>es. trace (snd (Ack id' opts arrival c)) = trace c @ es \<and> waiter_registered ws es"
  by (simp add: Ack_def Let_def sendMessage_trace sendMessage_waiter_registered)

lemma Send_waiter_registered:
  "\<exists>es. trace (snd (Send dest data opts arrival c)) = trace c @ es \<and> waiter_registered ws es"
  by (simp add: Send_def Let_def sendMessage_trace sendMessage_waiter_registered)

lemma Unsubscribe_waiter_registered:
  "\<exists>es. trace (snd (Unsubscribe id' opts arrival c)) = trace c @ es \<and> waiter_registered ws es"
  by (simp add: Unsubscribe_def Let_def sendMessage_trace emit_def sendMessage_waiter_registered)

text \<open>
  C1. Stated property: every message handed to \<open>Peer.Send\<close> with a non-empty
  \<open>Receipt\<close> and a method other than RECEIPT has its waiter in \<open>wait\<close> by then, also
  for \<open>Nack\<close> with a receipt option. \<open>Nack\<close> calls \<open>c.peer.Send\<close> itself: with
  \<open>WithReceipt\<close> the NACK frame carries the receipt \<open>42\<close>, it is enqueued on the
  peer, and \<open>wait\<close> never holds a waiter for \<open>42\<close>.
\<close>

theorem Nack_sends_without_waiter:
  "Nack ''7'' [WithReceipt 42] (New Conn)
     = (Return None,
        (New Conn)\<lparr> peer := Conn\<lparr> outgoing := \<lparr> closed = False, queue =
                       [(NewMessage [])\<lparr> Method := MethodNack, ID := ''7'', Receipt := ''42'' \<rparr>] \<rparr> \<rparr>,
                    trace := [PeerSend ((NewMessage [])\<lparr> Method := MethodNack, ID := ''7'', Receipt := ''42'' \<rparr>)] \<rparr>)
   \<and> wait (snd (Nack ''7'' [WithReceipt 42] (New Conn))) ''42'' = None
   \<and> \<not> waiter_registered [] (trace (snd (Nack ''7'' [WithReceipt 42] (New Conn))))"
  by (simp add: Nack_def peerSend_def peer_Send_def chan_send_def emit_def
      Let_def New_def Conn_def make_chan_def message_defs AppendInt_def digit_def)

section \<open>incr\<close>

lemma incr_times_ids:
  "fst (incr_times n c) = map (\<lambda>k. AppendInt (seq c + word_of_nat k)) [0..<n]"
proof (induction n arbitrary: c)
  case 0
  then show ?case by simp
next
  case (Suc n)
  have "fst (incr_times (Suc n) c) = AppendInt (seq c) # fst (incr_times n (snd (incr c)))"
    by (simp add: incr_eq split: prod.splits)
  also have "\<dots> = AppendInt (seq c) # map (\<lambda>k. AppendInt (seq c + 1 + word_of_nat k)) [0..<n]"
    by (simp add: Suc.IH incr_eq)
  also have "\<dots> = map (\<lambda>k. AppendInt (seq c + word_of_nat k)) [0..<Suc n]"
    by (simp add: map_upt_Suc add.assoc del: upt_Suc)
  finally show ?case .
qed

lemma incr_times_seq: "seq (snd (incr_times n c)) = seq c + word_of_nat n"
proof (induction n arbitrary: c)
  case 0
  then show ?case by simp
next
  case (Suc n)
  have "seq (snd (incr_times (Suc n) c)) = seq (snd (incr_times n (snd (incr c))))"
    by (simp split: prod.splits)
  then show ?case
    by (simp add: Suc.IH incr_eq)
qed

lemma word_of_nat_inj64:
  "a < 2 ^ 64 \<Longrightarrow> b < 2 ^ 64 \<Longrightarrow> (word_of_nat a :: 64 word) = word_of_nat b \<Longrightarrow> a = b"
proof -
  assume a: "a < 2 ^ 64" and b: "b < 2 ^ 64" and eq: "(word_of_nat a :: 64 word) = word_of_nat b"
  from eq have "unat (word_of_nat a :: 64 word) = unat (word_of_nat b :: 64 word)" by simp
  with a b show "a = b" by (simp add: unat_of_nat)
qed

lemma incr_times_nth:
  "k < n \<Longrightarrow> fst (incr_times n c) ! k = AppendInt (seq c + word_of_nat k)"
  by (simp add: incr_times_ids)

lemma first_ten_ids:
  "map (\<lambda>k. AppendInt (word_of_nat k)) [0..<10]
     = [''0'', ''1'', ''2'', ''3'', ''4''] @ [''5'', ''6'', ''7'', ''8'', ''9'']"
  by (simp add: upt_rec AppendInt_def digit_def)

lemma AppendInt_wrapped: "AppendInt 9223372036854775808 = ''-9223372036854775808''"
  by (simp add: AppendInt_def digit_def)

lemma digits_2_63: "digits 9223372036854775808 = ''9223372036854775808''"
  by (simp add: digit_def)

text \<open>
  C8. On a fresh client, \<open>n\<close> successive calls of \<open>incr\<close> return the
  decimal texts of the counter values \<open>0, 1, ...\<close> as signed 64-bit integers; the
  call number \<open>k + 1\<close> returns the decimal representation of \<open>k\<close> as long as
  \<open>k < 2 ^ 63\<close>; the identifiers of the first \<open>2 ^ 64\<close> calls are pairwise
  distinct; and ten calls yield \<open>0\<close> to \<open>9\<close> in order.
\<close>

theorem incr_identifiers:
  "fst (incr_times n (New p)) = map (\<lambda>k. AppendInt (word_of_nat k)) [0..<n]
   \<and> (\<forall>k. k < n \<and> k < 2 ^ 63 \<longrightarrow> fst (incr_times n (New p)) ! k = digits k)
   \<and> (n \<le> 2 ^ 64 \<longrightarrow> distinct (fst (incr_times n (New p))))
   \<and> fst (incr_times 10 (New p)) = [''0'', ''1'', ''2'', ''3'', ''4''] @ [''5'', ''6'', ''7'', ''8'', ''9'']"
proof -
  have ids: "\<And>n. fst (incr_times n (New p)) = map (\<lambda>k. AppendInt (word_of_nat k)) [0..<n]"
    by (simp add: incr_times_ids New_def)
  have small: "\<forall>k. k < n \<and> k < 2 ^ 63 \<longrightarrow> fst (incr_times n (New p)) ! k = digits k"
    by (simp add: ids AppendInt_small)
  have dist: "n \<le> 2 ^ 64 \<longrightarrow> distinct (fst (incr_times n (New p)))"
  proof
    assume n: "n \<le> 2 ^ 64"
    have "inj_on (\<lambda>k. AppendInt (word_of_nat k)) (set [0..<n])"
    proof (rule inj_onI)
      fix a b assume "a \<in> set [0..<n]" "b \<in> set [0..<n]"
        and eq: "AppendInt (word_of_nat a) = AppendInt (word_of_nat b)"
      with n have "a < 2 ^ 64" "b < 2 ^ 64" by simp_all
      moreover from eq have "(word_of_nat a :: 64 word) = word_of_nat b" by (rule AppendInt_inj)
      ultimately show "a = b" by (rule word_of_nat_inj64)
    qed
    then show "distinct (fst (incr_times n (New p)))"
      by (simp add: ids distinct_map)
  qed
  show ?thesis
    using ids [of n] small dist ids [of 10] first_ten_ids by simp
qed

theorem incr_identifiers_witness:
  "(3::nat) < 4 \<and> (3::nat) < 2 ^ 63 \<and> (4::nat) \<le> 2 ^ 64
   \<and> fst (incr_times 4 (New Conn)) ! 3 = digits 3
   \<and> distinct (fst (incr_times 4 (New Conn)))"
proof -
  have h: "(3::nat) < 4" "(3::nat) < 2 ^ 63" "(4::nat) \<le> 2 ^ 64" by simp_all
  show ?thesis
    using incr_identifiers [of 4 Conn] h by blast
qed

text \<open>
  The property as first stated fails where the counter wraps: the call number \<open>2 ^ 63 + 1\<close>
  returns \<open>-9223372036854775808\<close>, not the decimal representation of \<open>2 ^ 63\<close>.
\<close>

theorem incr_wraps_counterexample:
  "fst (incr_times 9223372036854775809 (New Conn)) ! 9223372036854775808 = ''-9223372036854775808''
   \<and> fst (incr_times 9223372036854775809 (New Conn)) ! 9223372036854775808
       \<noteq> digits 9223372036854775808"
proof -
  have "(9223372036854775808::nat) < 9223372036854775809" by simp
  then have "fst (incr_times 9223372036854775809 (New Conn)) ! 9223372036854775808
      = AppendInt (seq (New Conn) + word_of_nat 9223372036854775808)"
    by (rule incr_times_nth)
  also have "\<dots> = ''-9223372036854775808''"
    using AppendInt_wrapped by (simp add: New_def)
  finally show ?thesis
    by (simp add: digits_2_63)
qed

section \<open>Subscribe\<close>

text \<open>
  \<open>Subscribe\<close> with \<open>incr\<close> and the registration unfolded: \<open>sendMessage\<close> runs on
  the client that holds the handler under the new id.
\<close>

lemma Subscribe_unfold:
  "Subscribe dest handler opts arrival c =
     (case sendMessage
             (Apply opts ((NewMessage [])\<lparr> Method := MethodSubscribe, ID := AppendInt (seq c), Dest := dest \<rparr>))
             arrival
             (c\<lparr> seq := seq c + 1, subs := (subs c)(AppendInt (seq c) \<mapsto> handler),
                trace := trace c @ [Lock, SeqIncr, Unlock, Lock, SubsPut (AppendInt (seq c)) handler, Unlock] \<rparr>) of
        (Return None, c3) \<Rightarrow> (Return (AppendInt (seq c), None), c3)
      | (Return (Some err), c3) \<Rightarrow>
          (Return (AppendInt (seq c), Some err),
           c3\<lparr> subs := (subs c3)(AppendInt (seq c) := None),
              trace := trace c3 @ [Lock, SubsDel (AppendInt (seq c)), Unlock] \<rparr>)
      | (Panic v, c3) \<Rightarrow> (Panic v, c3)
      | (Block, c3) \<Rightarrow> (Block, c3))"
  by (simp add: Subscribe_def incr_eq emit_def Let_def
      split: prod.splits outcome.splits option.splits)


text \<open>On an open peer, with no receipt asked for: the frame is enqueued, the handler stays.\<close>

lemma Subscribe_open:
  assumes "\<not> closed (pdone (peer c))" and "\<not> closed (outgoing (peer c))"
    and "length (Receipt (Apply opts ((NewMessage [])\<lparr> Method := MethodSubscribe,
           ID := AppendInt (seq c), Dest := dest \<rparr>))) = 0"
  shows "Subscribe dest handler opts arrival c =
     (let i = AppendInt (seq c);
          m = Apply opts ((NewMessage [])\<lparr> Method := MethodSubscribe, ID := i, Dest := dest \<rparr>)
      in (Return (i, None),
          c\<lparr> seq := seq c + 1,
             subs := (subs c)(i \<mapsto> handler),
             trace := trace c @ [Lock, SeqIncr, Unlock, Lock, SubsPut i handler, Unlock, PeerSend m],
             peer := (peer c)\<lparr> outgoing := (outgoing (peer c))\<lparr> queue := queue (outgoing (peer c)) @ [m] \<rparr> \<rparr> \<rparr>))"
  using assms
  by (simp add: Subscribe_unfold Let_def sendMessage_def peerSend_open)






text \<open>
  Such a state is reached through the client's own operations: after one successful
  \<open>Subscribe\<close>, \<open>2 ^ 64 - 1\<close> further identifiers and \<open>Disconnect\<close>, the counter
  is \<open>0\<close> again, the handler of subscription \<open>0\<close> is registered and the peer is
  closed.
\<close>

lemma incr_times_fields:
  "subs (snd (incr_times n c)) = subs c" "peer (snd (incr_times n c)) = peer c"
proof (induction n arbitrary: c)
  case 0
  {
    case 1 show ?case by simp
  next
    case 2 show ?case by simp
  }
next
  case (Suc n)
  {
    case 1
    have "subs (snd (incr_times (Suc n) c)) = subs (snd (incr_times n (snd (incr c))))"
      by (simp split: prod.splits)
    then show ?case by (simp add: Suc.IH(1) incr_eq)
  next
    case 2
    have "peer (snd (incr_times (Suc n) c)) = peer (snd (incr_times n (snd (incr c))))"
      by (simp split: prod.splits)
    then show ?case by (simp add: Suc.IH(2) incr_eq)
  }
qed

lemma Disconnect_open:
  assumes "\<not> closed (pdone (peer c))" and "\<not> closed (incoming (peer c))"
    and "\<not> closed (outgoing (peer c))"
  shows "fst (Disconnect c) = Return None \<and> closed (pdone (peer (snd (Disconnect c))))
       \<and> subs (snd (Disconnect c)) = subs c \<and> seq (snd (Disconnect c)) = seq c"
  using assms
  by (simp add: Disconnect_def Let_def sendMessage_def NewMessage_def peerSend_open peerClose_def
      peer_Close_open emit_def)

lemma counter_wrap_reached:
  "seq (snd (Disconnect (snd (incr_times 18446744073709551615
          (snd (Subscribe ''/topic/x'' h [] Never (New Conn))))))) = 0
   \<and> subs (snd (Disconnect (snd (incr_times 18446744073709551615
          (snd (Subscribe ''/topic/x'' h [] Never (New Conn))))))) = [''0'' \<mapsto> h]
   \<and> closed (pdone (peer (snd (Disconnect (snd (incr_times 18446744073709551615
          (snd (Subscribe ''/topic/x'' h [] Never (New Conn)))))))))"
proof -
  let ?c1 = "snd (Subscribe ''/topic/x'' h [] Never (New Conn))"
  let ?c2 = "snd (incr_times 18446744073709551615 ?c1)"
  have op: "\<not> closed (pdone (peer (New Conn)))" "\<not> closed (outgoing (peer (New Conn)))"
    by (simp_all add: New_def Conn_def make_chan_def)
  have nr: "length (Receipt (Apply [] ((NewMessage [])\<lparr> Method := MethodSubscribe,
      ID := AppendInt (seq (New Conn)), Dest := ''/topic/x'' \<rparr>))) = 0"
    by (simp add: message_defs)
  have c1: "seq ?c1 = 1" "subs ?c1 = [''0'' \<mapsto> h]"
    "\<not> closed (pdone (peer ?c1))" "\<not> closed (incoming (peer ?c1))" "\<not> closed (outgoing (peer ?c1))"
    by (simp_all only: Subscribe_open [OF op nr] Let_def snd_conv)
       (simp_all add: New_def Conn_def make_chan_def AppendInt_def digit_def)
  have "seq ?c2 = seq ?c1 + word_of_nat 18446744073709551615"
    by (rule incr_times_seq)
  with c1(1) have s2: "seq ?c2 = 0" by simp
  have f2: "subs ?c2 = [''0'' \<mapsto> h]" "\<not> closed (pdone (peer ?c2))"
    "\<not> closed (incoming (peer ?c2))" "\<not> closed (outgoing (peer ?c2))"
    using c1 by (simp_all add: incr_times_fields)
  from Disconnect_open [OF f2(2) f2(3) f2(4)] s2 f2(1) show ?thesis by simp
qed

text \<open>
  The allocated id is fresh in every state reached from \<open>New\<close> before the counter
  wraps: \<open>ids_issued\<close> holds at the start, is kept by \<open>Subscribe\<close> and
  \<open>Unsubscribe\<close>, and makes the next id fresh.
\<close>

lemma ids_issued_New: "ids_issued (New p)"
  by (simp add: ids_issued_def New_def)

lemma ids_issued_fresh:
  assumes "ids_issued c"
  shows "AppendInt (seq c) \<notin> dom (subs c)"
proof
  assume "AppendInt (seq c) \<in> dom (subs c)"
  with assms obtain i where i: "i < unat (seq c)" "AppendInt (seq c) = AppendInt (word_of_nat i)"
    by (auto simp: ids_issued_def)
  from i(2) have "seq c = word_of_nat i" by (rule AppendInt_inj)
  then have "unat (seq c) = i mod 2 ^ 64"
    by (simp add: unat_of_nat)
  also have "\<dots> \<le> i" by simp
  finally show False using i(1) by simp
qed

lemma Subscribe_seq: "seq (snd (Subscribe dest handler opts arrival c)) = seq c + 1"
proof -
  have "\<And>m c2. seq (snd (sendMessage m arrival c2)) = seq c2"
    by (rule sendMessage_fields)
  then have "\<And>m c2 r c3. sendMessage m arrival c2 = (r, c3) \<Longrightarrow> seq c3 = seq c2"
    by (metis snd_conv)
  then show ?thesis
    by (auto simp: Subscribe_def incr_eq emit_def Let_def split: prod.splits outcome.splits option.splits)
qed

lemma Subscribe_dom:
  "dom (subs (snd (Subscribe dest handler opts arrival c))) \<subseteq> insert (AppendInt (seq c)) (dom (subs c))"
proof -
  have "\<And>m c2. subs (snd (sendMessage m arrival c2)) = subs c2"
    by (rule sendMessage_fields)
  then have "\<And>m c2 r c3. sendMessage m arrival c2 = (r, c3) \<Longrightarrow> subs c3 = subs c2"
    by (metis snd_conv)
  then show ?thesis
    by (auto simp: Subscribe_def incr_eq emit_def Let_def split: prod.splits outcome.splits option.splits if_splits)
qed

lemma ids_issued_Subscribe:
  assumes "ids_issued c" and "seq c + 1 \<noteq> 0"
  shows "ids_issued (snd (Subscribe dest handler opts arrival c))"
proof -
  from assms(2) have u: "unat (seq c + 1) = Suc (unat (seq c))"
    by (simp add: unatSuc add.commute)
  show ?thesis
    unfolding ids_issued_def Subscribe_seq u
  proof
    fix k assume "k \<in> dom (subs (snd (Subscribe dest handler opts arrival c)))"
    with Subscribe_dom have "k = AppendInt (seq c) \<or> k \<in> dom (subs c)" by blast
    then show "\<exists>i<Suc (unat (seq c)). k = AppendInt (word_of_nat i)"
    proof
      assume "k = AppendInt (seq c)"
      then have "k = AppendInt (word_of_nat (unat (seq c)))" by simp
      then show ?thesis by blast
    next
      assume "k \<in> dom (subs c)"
      with assms(1) obtain i where "i < unat (seq c)" "k = AppendInt (word_of_nat i)"
        by (auto simp: ids_issued_def)
      then show ?thesis by (metis less_Suc_eq)
    qed
  qed
qed

lemma ids_issued_Unsubscribe:
  assumes "ids_issued c"
  shows "ids_issued (snd (Unsubscribe id' opts arrival c))"
  using assms
  by (auto simp: ids_issued_def Unsubscribe_def Let_def sendMessage_fields emit_def split: if_splits)

section \<open>The listen task\<close>

lemma receive_frame:
  "queue (incoming (peer c)) = m # ms \<Longrightarrow>
     receive c = (Return (Some m),
       c\<lparr> peer := (peer c)\<lparr> incoming := (incoming (peer c))\<lparr> queue := ms \<rparr> \<rparr>,
          trace := trace c @ [PeerReceive] \<rparr>)"
  by (simp add: receive_def emit_def)

lemma dispatch_unknown:
  "Method m \<noteq> MethodMessage \<Longrightarrow> Method m \<noteq> MethodRecipet \<Longrightarrow>
     dispatch m c = (Return (),
       c\<lparr> trace := trace c @ [Noticef ''stomp client: unknown message type: %s'' (Method m)] \<rparr>)"
  by (simp add: dispatch_def emit_def)

lemma dispatch_no_handler:
  "Method m = MethodMessage \<Longrightarrow> subs c (Subs m) = None \<Longrightarrow>
     dispatch m c = (Return (),
       c\<lparr> trace := trace c @ [Lock, SubsGet (Subs m), Unlock,
            Noticef ''stomp client: subscription not found: %s'' (Subs m)] \<rparr>)"
  by (simp add: dispatch_def handleMessage_def emit_def Let_def)

lemma dispatch_handler:
  "Method m = MethodMessage \<Longrightarrow> subs c (Subs m) = Some h \<Longrightarrow>
     dispatch m c = (h m, c\<lparr> trace := trace c @ [Lock, SubsGet (Subs m), Unlock, Handle m] \<rparr>)"
  by (simp add: dispatch_def handleMessage_def emit_def Let_def)

lemma listenLoop_frame:
  "queue (incoming (peer c)) = m # ms \<Longrightarrow> dispatch m (snd (receive c)) = (Return (), c2) \<Longrightarrow>
     listenLoop c = listenLoop c2"
  by (subst listenLoop.simps) (simp add: receive_frame)

text \<open>No event of the listen task is a release.\<close>

lemma dispatch_no_release:
  "Release x \<in> set (trace (snd (dispatch m c))) \<Longrightarrow> Release x \<in> set (trace c)"
  by (auto simp: dispatch_def handleMessage_def handleReceipt_def emit_def Let_def
      chan_send_buffered_def split: if_splits option.splits)

lemma receive_no_release:
  "Release x \<in> set (trace (snd (receive c))) \<Longrightarrow> Release x \<in> set (trace c)"
  by (auto simp: receive_def emit_def split: list.splits if_splits)

lemma done_send_no_release:
  "Release x \<in> set (trace (snd (done_send e c))) \<Longrightarrow> Release x \<in> set (trace c)"
  by (auto simp: done_send_def emit_def chan_send_buffered_def split: if_splits)

lemma recovered_no_release:
  "Release x \<in> set (trace (snd (recovered r c))) \<Longrightarrow> Release x \<in> set (trace c)"
  by (cases r) (auto simp: recovered_def emit_def Let_def dest!: done_send_no_release)

lemma listenLoop_no_release:
  "Release x \<in> set (trace (snd (listenLoop c))) \<Longrightarrow> Release x \<in> set (trace c)"
proof (induction c rule: listenLoop.induct)
  case (1 c)
  obtain r c1 where rc: "receive c = (r, c1)" by (cases "receive c")
  have c1: "Release x \<in> set (trace c1) \<Longrightarrow> Release x \<in> set (trace c)"
    using receive_no_release [of x c] rc by simp
  show ?case
  proof (cases r)
    case (Return mo)
    show ?thesis
    proof (cases mo)
      case None
      with Return rc "1.prems" have "Release x \<in> set (trace (snd (done_send EOF c1)))"
        by (subst (asm) listenLoop.simps) simp
      then show ?thesis using c1 done_send_no_release by blast
    next
      case (Some m)
      obtain d c2 where dc: "dispatch m c1 = (d, c2)" by (cases "dispatch m c1")
      have c2: "Release x \<in> set (trace c2) \<Longrightarrow> Release x \<in> set (trace c1)"
        using dispatch_no_release [of x m c1] dc by simp
      show ?thesis
      proof (cases d)
        case (Return u)
        with \<open>r = Return mo\<close> Some rc dc "1.prems"
        have "Release x \<in> set (trace (snd (listenLoop c2)))"
          by (subst (asm) listenLoop.simps) simp
        with "1.IH" [OF rc [symmetric] \<open>r = Return mo\<close> Some dc [symmetric] Return]
        have "Release x \<in> set (trace c2)" .
        then show ?thesis using c1 c2 by blast
      next
        case (Panic v)
        with \<open>r = Return mo\<close> Some rc dc "1.prems" have "Release x \<in> set (trace c2)"
          by (subst (asm) listenLoop.simps) simp
        then show ?thesis using c1 c2 by blast
      next
        case Block
        with \<open>r = Return mo\<close> Some rc dc "1.prems" have "Release x \<in> set (trace c2)"
          by (subst (asm) listenLoop.simps) simp
        then show ?thesis using c1 c2 by blast
      qed
    qed
  next
    case (Panic v)
    with rc "1.prems" have "Release x \<in> set (trace c1)"
      by (subst (asm) listenLoop.simps) simp
    then show ?thesis using c1 by blast
  next
    case Block
    with rc "1.prems" have "Release x \<in> set (trace c1)"
      by (subst (asm) listenLoop.simps) simp
    then show ?thesis using c1 by blast
  qed
qed

lemma listen_no_release:
  "Release x \<in> set (trace (snd (listen c))) \<Longrightarrow> Release x \<in> set (trace c)"
proof -
  assume a: "Release x \<in> set (trace (snd (listen c)))"
  obtain r c1 where l: "listenLoop c = (r, c1)" by (cases "listenLoop c")
  have "Release x \<in> set (trace c1)"
    using a l recovered_no_release [of x _ c1]
    by (cases r) (auto simp: listen_def)
  with l listenLoop_no_release [of x c] show ?thesis by simp
qed

text \<open>A RECEIPT goes to its waiter, never to a handler.\<close>

lemma dispatch_receipt: "Method m = MethodRecipet \<Longrightarrow> dispatch m c = handleReceipt m c"
  by (simp add: dispatch_def Method_defs)

text \<open>
  One turn of the loop on a frame that is dropped, or handled by a handler that
  returns: the frame is taken from the channel, logged or handled, and the loop goes on.
\<close>

lemma listenLoop_unknown:
  assumes "queue (incoming (peer c)) = m # ms"
    and "Method m \<noteq> MethodMessage" and "Method m \<noteq> MethodRecipet"
  shows "listenLoop c = listenLoop
     (c\<lparr> peer := (peer c)\<lparr> incoming := (incoming (peer c))\<lparr> queue := ms \<rparr> \<rparr>,
        trace := trace c @ [PeerReceive,
          Noticef ''stomp client: unknown message type: %s'' (Method m)] \<rparr>)"
  using assms
  by (subst listenLoop.simps) (simp add: receive_frame dispatch_unknown)

lemma listenLoop_no_handler:
  assumes "queue (incoming (peer c)) = m # ms"
    and "Method m = MethodMessage" and "subs c (Subs m) = None"
  shows "listenLoop c = listenLoop
     (c\<lparr> peer := (peer c)\<lparr> incoming := (incoming (peer c))\<lparr> queue := ms \<rparr> \<rparr>,
        trace := trace c @ [PeerReceive, Lock, SubsGet (Subs m), Unlock,
          Noticef ''stomp client: subscription not found: %s'' (Subs m)] \<rparr>)"
  using assms
  by (subst listenLoop.simps) (simp add: receive_frame dispatch_no_handler)

lemma listenLoop_handler:
  assumes "queue (incoming (peer c)) = m # ms"
    and "Method m = MethodMessage" and "subs c (Subs m) = Some h" and "h m = Return ()"
  shows "listenLoop c = listenLoop
     (c\<lparr> peer := (peer c)\<lparr> incoming := (incoming (peer c))\<lparr> queue := ms \<rparr> \<rparr>,
        trace := trace c @ [PeerReceive, Lock, SubsGet (Subs m), Unlock, Handle m] \<rparr>)"
  using assms
  by (subst listenLoop.simps) (simp add: receive_frame dispatch_handler)

text \<open>
  Only a MESSAGE with a handler registered under its \<open>Subs\<close> is passed to a handler:
  every \<open>Handle\<close> that the listen task adds to the trace is of such a message.
\<close>

lemma dispatch_subs: "subs (snd (dispatch m c)) = subs c"
  by (simp add: dispatch_def handleMessage_def handleReceipt_def emit_def Let_def
      chan_send_buffered_def split: option.splits)

lemma receive_subs: "subs (snd (receive c)) = subs c"
  by (simp add: receive_def emit_def split: list.splits)

lemma dispatch_handles:
  "Handle x \<in> set (trace (snd (dispatch m c))) \<Longrightarrow>
     Handle x \<in> set (trace c) \<or> (Method x = MethodMessage \<and> subs c (Subs x) \<noteq> None)"
  by (auto simp: dispatch_def handleMessage_def handleReceipt_def emit_def Let_def
      chan_send_buffered_def split: if_splits option.splits)

lemma receive_handles:
  "Handle x \<in> set (trace (snd (receive c))) \<Longrightarrow> Handle x \<in> set (trace c)"
  by (auto simp: receive_def emit_def split: list.splits if_splits)

lemma done_send_handles:
  "Handle x \<in> set (trace (snd (done_send e c))) \<Longrightarrow> Handle x \<in> set (trace c)"
  by (auto simp: done_send_def emit_def chan_send_buffered_def split: if_splits)

lemma recovered_handles:
  "Handle x \<in> set (trace (snd (recovered r c))) \<Longrightarrow> Handle x \<in> set (trace c)"
  by (cases r) (auto simp: recovered_def emit_def Let_def dest!: done_send_handles)

lemma listenLoop_handles:
  "Handle x \<in> set (trace (snd (listenLoop c))) \<Longrightarrow>
     Handle x \<in> set (trace c) \<or> (Method x = MethodMessage \<and> subs c (Subs x) \<noteq> None)"
proof (induction c rule: listenLoop.induct)
  case (1 c)
  obtain r c1 where rc: "receive c = (r, c1)" by (cases "receive c")
  have c1: "Handle x \<in> set (trace c1) \<Longrightarrow> Handle x \<in> set (trace c)"
    using receive_handles [of x c] rc by simp
  have s1: "subs c1 = subs c"
    using receive_subs [of c] rc by simp
  show ?case
  proof (cases r)
    case (Return mo)
    show ?thesis
    proof (cases mo)
      case None
      with Return rc "1.prems" have "Handle x \<in> set (trace (snd (done_send EOF c1)))"
        by (subst (asm) listenLoop.simps) simp
      then show ?thesis using c1 done_send_handles by blast
    next
      case (Some m)
      obtain d c2 where dc: "dispatch m c1 = (d, c2)" by (cases "dispatch m c1")
      have c2: "Handle x \<in> set (trace c2) \<Longrightarrow>
          Handle x \<in> set (trace c1) \<or> (Method x = MethodMessage \<and> subs c1 (Subs x) \<noteq> None)"
        using dispatch_handles [of x m c1] dc by simp
      have s2: "subs c2 = subs c1"
        using dispatch_subs [of m c1] dc by simp
      show ?thesis
      proof (cases d)
        case (Return u)
        with \<open>r = Return mo\<close> Some rc dc "1.prems"
        have "Handle x \<in> set (trace (snd (listenLoop c2)))"
          by (subst (asm) listenLoop.simps) simp
        with "1.IH" [OF rc [symmetric] \<open>r = Return mo\<close> Some dc [symmetric] Return]
        have "Handle x \<in> set (trace c2) \<or> (Method x = MethodMessage \<and> subs c2 (Subs x) \<noteq> None)" .
        then show ?thesis using c1 c2 s1 s2 by auto
      next
        case (Panic v)
        with \<open>r = Return mo\<close> Some rc dc "1.prems" have "Handle x \<in> set (trace c2)"
          by (subst (asm) listenLoop.simps) simp
        then show ?thesis using c1 c2 s1 by auto
      next
        case Block
        with \<open>r = Return mo\<close> Some rc dc "1.prems" have "Handle x \<in> set (trace c2)"
          by (subst (asm) listenLoop.simps) simp
        then show ?thesis using c1 c2 s1 by auto
      qed
    qed
  next
    case (Panic v)
    with rc "1.prems" have "Handle x \<in> set (trace c1)"
      by (subst (asm) listenLoop.simps) simp
    then show ?thesis using c1 by blast
  next
    case Block
    with rc "1.prems" have "Handle x \<in> set (trace c1)"
      by (subst (asm) listenLoop.simps) simp
    then show ?thesis using c1 by blast
  qed
qed

lemma listen_handles:
  "Handle x \<in> set (trace (snd (listen c))) \<Longrightarrow>
     Handle x \<in> set (trace c) \<or> (Method x = MethodMessage \<and> subs c (Subs x) \<noteq> None)"
proof -
  assume a: "Handle x \<in> set (trace (snd (listen c)))"
  obtain r c1 where l: "listenLoop c = (r, c1)" by (cases "listenLoop c")
  have "Handle x \<in> set (trace c1)"
    using a l recovered_handles [of x _ c1]
    by (cases r) (auto simp: listen_def)
  with l listenLoop_handles [of x c] show ?thesis by simp
qed

lemmas listen_defs = listen_def listenLoop.simps receive_def dispatch_def handleMessage_def
  handleReceipt_def done_send_def recovered_def chan_send_buffered_def emit_def Let_def
  New_def Conn_def make_chan_def NewMessage_def Method_defs

text \<open>
  C2. Stated property: a frame whose method is neither MESSAGE nor RECEIPT, and a
  MESSAGE with no handler under its \<open>Subs\<close>, is logged and released back to the pool.
  The listen task logs such a frame and drops it with no \<open>Release\<close>, unlike
  \<open>Connect\<close>, which releases the frame it has received: on the frames ERROR and
  MESSAGE (with no handler for its subscription \<open>9\<close>) it logs twice, delivers
  \<open>io.EOF\<close> when the channel is closed, passes nothing to a handler, and releases
  neither message.
\<close>

theorem listen_drops_unreleased:
  "listen ((New (Conn\<lparr> incoming := \<lparr> closed = True, queue =
             [(NewMessage [])\<lparr> Method := ''ERROR'' \<rparr>,
              (NewMessage [])\<lparr> Method := MethodMessage, Subs := ''9'' \<rparr>] \<rparr> \<rparr>)))
     = (Return (),
        (New (Conn\<lparr> incoming := \<lparr> closed = True, queue = [] \<rparr> \<rparr>))
          \<lparr> cdone := \<lparr> closed = False, queue = [EOF] \<rparr>,
            trace := [PeerReceive,
                      Noticef ''stomp client: unknown message type: %s'' ''ERROR'',
                      PeerReceive, Lock, SubsGet ''9'', Unlock,
                      Noticef ''stomp client: subscription not found: %s'' ''9'',
                      PeerReceive, DoneSend EOF] \<rparr>)
   \<and> Release ((NewMessage [])\<lparr> Method := ''ERROR'' \<rparr>)
       \<notin> set (trace (snd (listen ((New (Conn\<lparr> incoming := \<lparr> closed = True, queue =
             [(NewMessage [])\<lparr> Method := ''ERROR'' \<rparr>,
              (NewMessage [])\<lparr> Method := MethodMessage, Subs := ''9'' \<rparr>] \<rparr> \<rparr>))))))
   \<and> Release ((NewMessage [])\<lparr> Method := MethodMessage, Subs := ''9'' \<rparr>)
       \<notin> set (trace (snd (listen ((New (Conn\<lparr> incoming := \<lparr> closed = True, queue =
             [(NewMessage [])\<lparr> Method := ''ERROR'' \<rparr>,
              (NewMessage [])\<lparr> Method := MethodMessage, Subs := ''9'' \<rparr>] \<rparr> \<rparr>))))))"
  by (simp add: listen_defs)

text \<open>
  A release is an event of the model where the code releases: \<open>Connect\<close> releases the
  frame it received.
\<close>

lemma Connect_releases:
  "trace (snd (Connect [] Never (New (Conn\<lparr> incoming := \<lparr> closed = False, queue =
             [(NewMessage [])\<lparr> Method := MethodConnected, Proto := STOMP \<rparr>] \<rparr> \<rparr>))))
     = [PeerSend ((NewMessage [])\<lparr> Proto := STOMP, Method := MethodStomp \<rparr>),
        PeerReceive, GoListen,
        Release ((NewMessage [])\<lparr> Method := MethodConnected, Proto := STOMP \<rparr>)]"
  by (simp add: Connect_def sendMessage_def peerSend_def peer_Send_def chan_send_def receive_def
      emit_def Let_def New_def Conn_def make_chan_def message_defs STOMP_def)

text \<open>
  A handler's panic with a value that is an \<open>error\<close> is recovered and delivered on
  \<open>done\<close>; a panic with another value makes the deferred function panic in turn.
\<close>

lemma listen_handler_panic_error:
  assumes "queue (incoming (peer c)) = m # ms" and "Method m = MethodMessage"
    and "subs c (Subs m) = Some h" and "h m = Panic (ErrorValue e)"
    and "\<not> closed (cdone c)" and "queue (cdone c) = []"
  shows "fst (listen c) = Return () \<and> queue (cdone (snd (listen c))) = [e]"
  using assms
  by (simp add: listen_def recovered_def done_send_def chan_send_buffered_def emit_def Let_def
      listenLoop.simps [of c] receive_frame dispatch_handler)

lemma listen_handler_panic_other:
  assumes "queue (incoming (peer c)) = m # ms" and "Method m = MethodMessage"
    and "subs c (Subs m) = Some h" and "h m = Panic (OtherValue v)"
  shows "fst (listen c)
           = Panic (ErrorValue (RuntimeError ''interface conversion: string is not error: missing method Error''))
       \<and> cdone (snd (listen c)) = cdone c"
  using assms
  by (simp add: listen_def recovered_def emit_def Let_def
      listenLoop.simps [of c] receive_frame dispatch_handler)

text \<open>
  C4. Stated property: whatever the type of the value a handler panics with, the
  listen task recovers it and delivers it on \<open>done\<close>. The deferred function asserts
  \<open>r.(error)\<close>: when the handler of subscription \<open>0\<close> panics with the string
  \<open>boom\<close>, the assertion panics, the listen task ends with that panic and \<open>Done()\<close>
  holds nothing.
\<close>

theorem listen_panic_not_error:
  "fst (listen ((New (Conn\<lparr> incoming := \<lparr> closed = False, queue =
           [(NewMessage [])\<lparr> Method := MethodMessage, Subs := ''0'' \<rparr>] \<rparr> \<rparr>))
           \<lparr> subs := [''0'' \<mapsto> (\<lambda>m. Panic (OtherValue ''boom''))] \<rparr>))
     = Panic (ErrorValue (RuntimeError ''interface conversion: string is not error: missing method Error''))
   \<and> queue (Done (snd (listen ((New (Conn\<lparr> incoming := \<lparr> closed = False, queue =
           [(NewMessage [])\<lparr> Method := MethodMessage, Subs := ''0'' \<rparr>] \<rparr> \<rparr>))
           \<lparr> subs := [''0'' \<mapsto> (\<lambda>m. Panic (OtherValue ''boom''))] \<rparr>)))) = []"
  by (simp add: listen_defs Done_def)

end
